theory Spec2Isabelle
  imports Complex_Main "HOL-Library.Sublist" "HOL-Library.Multiset" "HOL-Library.Log_Nat"
begin

section \<open>Data model (shared/schema and the engine's interfaces)\<close>

text \<open>
  A valid \<^verbatim>\<open>Date\<close> is modelled by its time value, the number of milliseconds since the
  epoch (\<^verbatim>\<open>getTime()\<close>), an \<^typ>\<open>int\<close> of magnitude at most 8.64e15. An Invalid Date has
  no time value: wherever the code can construct one, the model says so (\<open>newDate\<close>
  below), and a \<open>date\<close> stored in a task or in the clock of a pass is always valid.
  The integer columns of the schema (\<^verbatim>\<open>timePerKg\<close>, \<^verbatim>\<open>totalQuantity\<close>,
  \<^verbatim>\<open>requiredEmployees\<close>, \<^verbatim>\<open>sequence\<close>) are \<^typ>\<open>int\<close>; the arithmetic the code does on
  them is the arithmetic of doubles (\<open>jsTimes\<close>, \<open>jsPlus\<close>, \<open>jsMinus\<close> below).
  Fractional hours are rationals. The two \<^verbatim>\<open>"HH:MM"\<close> strings of a working
  time model are kept as their two numeric fields. Field names that several tables
  share (\<^verbatim>\<open>id\<close>, \<^verbatim>\<open>name\<close>, \<^verbatim>\<open>startTime\<close>, ...) carry a prefix.
\<close>

type_synonym date = int

record WorkingTimeModel =
  wtm_startTime :: "nat \<times> nat"
  wtm_endTime :: "nat \<times> nat"
  maxHours :: rat

record Employee =
  emp_id :: string
  emp_name :: string
  skills :: "string list"
  workingTimeModel :: WorkingTimeModel
  isAvailable :: bool

record ProductionArea =
  area_id :: string
  area_type :: string

record ProcessStep =
  ps_id :: string
  ps_name :: string
  requiredSkills :: "string list"
  timePerKg :: int
  requiredEmployees :: int
  ps_productionAreaId :: "string option"

text \<open>An order step with its details: \<^verbatim>\<open>OrderProcessStep & { processStep: ProcessStep }\<close>.\<close>

record OrderProcessStep =
  ops_id :: string
  ops_processStepId :: string
  ops_sequence :: int
  processStep :: ProcessStep

record ProductionOrder =
  order_id :: string
  productName :: string
  totalQuantity :: int
  priority :: string
  processSteps :: "OrderProcessStep list"

record ScheduledTask =
  orderId :: string
  orderProcessStepId :: string
  processStepId :: string
  employeeId :: string
  startTime :: date
  endTime :: date
  estimatedDuration :: int
  productionAreaId :: string

text \<open>
  The issue and recommendation strings are template literals; the model keeps the
  template and its arguments:
  \<^item> \<open>InsufficientStaff step product need found\<close>:
    \<^verbatim>\<open>Insufficient skilled staff for ${step} in ${product}. Need ${need}, found ${found}\<close>
  \<^item> \<open>DependencyNotMet step product reason\<close>:
    \<^verbatim>\<open>Dependency not met for ${step} in ${product}: ${reason}\<close>
  \<^item> \<open>Overlapping who\<close>: \<^verbatim>\<open>${who} has overlapping assignments\<close>
  \<^item> \<open>ExceedsMaxHours name total max\<close>:
    \<^verbatim>\<open>${name} exceeds maximum working hours: ${total}h > ${max}h\<close>
  \<^item> \<open>SchedulerExceedsMaxHours name total max\<close>, the wording of \<^verbatim>\<open>ProductionScheduler\<close>:
    \<^verbatim>\<open>Employee ${name} exceeds maximum working hours (${total}h > ${max}h)\<close>
  \<^item> \<open>SchedulingFailed msg\<close>: \<^verbatim>\<open>Scheduling failed: ${msg}\<close>
\<close>

datatype issue =
    InsufficientStaff string string int nat
  | DependencyNotMet string string string
  | Overlapping string
  | ExceedsMaxHours string rat rat
  | SchedulerExceedsMaxHours string rat rat
  | SchedulingFailed string

datatype jsnum = Num rat | Infinity | NaN

datatype recommendation =
    NoOrders
  | ReviewInput
  | LowUtilization jsnum
  | HighUtilization jsnum
  | SkillGap string
  | BreakDownLongTasks

record SchedulingResult =
  tasks :: "ScheduledTask list"
  feasible :: bool
  issues :: "issue list"
  recommendations :: "recommendation list"

text \<open>What a \<^verbatim>\<open>throw\<close> carries: an \<^verbatim>\<open>Error\<close> with its message, or any other value.\<close>

datatype thrown = JsError string | JsOther

record InsertShiftAssignment =
  isa_employeeId :: string
  isa_orderProcessStepId :: string
  isa_startTime :: date
  isa_endTime :: date
  isa_status :: string

text \<open>
  The storage collaborator (\<^verbatim>\<open>IStorage\<close>): every call either resolves to a value or
  rejects with a thrown value (\<open>Inl\<close>). The engine never reads back what it has written,
  so the answers are functions of the arguments; it discards what
  \<^verbatim>\<open>getShiftAssignments\<close> and \<^verbatim>\<open>createShiftAssignment\<close> resolve to, so these resolve
  to \<open>()\<close> here. Of a production area only the fields the engine could read are kept.
\<close>

record IStorage =
  getEmployees :: "thrown + Employee list"
  getProductionAreas :: "thrown + ProductionArea list"
  getProcessSteps :: "thrown + ProcessStep list"
  getProductionOrdersWithDetails :: "date \<Rightarrow> thrown + ProductionOrder list"
  getShiftAssignments :: "date \<Rightarrow> thrown + unit"
  createShiftAssignment :: "InsertShiftAssignment \<Rightarrow> thrown + unit"

section \<open>JavaScript numbers and Dates\<close>

text \<open>
  A Number is a binary64 double. On integers, an arithmetic operation returns the exact
  result rounded to the nearest double: the result itself up to \<open>2^53\<close>, and beyond
  that the nearest integer with a significand of 53 bits, a tie going to the even
  significand. (From \<open>2^1024\<close> on the code has an infinity where this function has a
  large integer; \<^verbatim>\<open>new Date\<close> turns both into an Invalid Date.)
\<close>

definition roundToDouble :: "int \<Rightarrow> int" where
  "roundToDouble x =
     (if \<bar>x\<bar> \<le> 9007199254740992 then x
      else let e = nat (bitlen \<bar>x\<bar> - 53);
               q = \<bar>x\<bar> div 2 ^ e;
               r = \<bar>x\<bar> mod 2 ^ e;
               q' = (if 2 * r > 2 ^ e \<or> (2 * r = 2 ^ e \<and> odd q) then q + 1 else q)
           in sgn x * (q' * 2 ^ e))"

definition jsTimes :: "int \<Rightarrow> int \<Rightarrow> int" where
  "jsTimes a b = roundToDouble (a * b)"

definition jsPlus :: "int \<Rightarrow> int \<Rightarrow> int" where
  "jsPlus a b = roundToDouble (a + b)"

definition jsMinus :: "int \<Rightarrow> int \<Rightarrow> int" where
  "jsMinus a b = roundToDouble (a - b)"

text \<open>
  \<^verbatim>\<open>new Date(ms)\<close> clips the time value: beyond 8.64e15 ms on either side of the epoch
  the Date is an Invalid Date (\<open>None\<close>), whose time value is \<^verbatim>\<open>NaN\<close>.
\<close>

definition validDate :: "int \<Rightarrow> bool" where
  "validDate ms = (\<bar>ms\<bar> \<le> 8640000000000000)"

definition newDate :: "int \<Rightarrow> date option" where
  "newDate ms = (if validDate ms then Some ms else None)"

section \<open>Time utilities\<close>

text \<open>
  Local time is taken to be UTC: \<^verbatim>\<open>getHours\<close> and \<^verbatim>\<open>getMinutes\<close> read the time value,
  \<^verbatim>\<open>setHours(h, m, 0, 0)\<close> keeps the day and replaces the time of day; \<open>createDateTime\<close>
  is the time value it computes, which the passes turn into a Date with \<open>newDate\<close>.
\<close>

definition getHours :: "date \<Rightarrow> int" where
  "getHours t = (t div 3600000) mod 24"

definition getMinutes :: "date \<Rightarrow> int" where
  "getMinutes t = (t div 60000) mod 60"

definition createDateTime :: "date \<Rightarrow> int \<Rightarrow> int \<Rightarrow> date" where
  "createDateTime baseDate hours minutes =
     (baseDate div 86400000) * 86400000 + hours * 3600000 + minutes * 60000"

definition parseTimeString :: "nat \<times> nat \<Rightarrow> rat" where
  "parseTimeString timeStr = (case timeStr of (hours, minutes) \<Rightarrow> of_nat hours + of_nat minutes / 60)"

text \<open>\<^verbatim>\<open>String.prototype.includes\<close>: the argument occurs as a contiguous substring.\<close>

fun strIncludes :: "string \<Rightarrow> string \<Rightarrow> bool" where
  "strIncludes [] sub = (sub = [])"
| "strIncludes (c # cs) sub = (prefix sub (c # cs) \<or> strIncludes cs sub)"

text \<open>\<^verbatim>\<open>productionAreaId?.includes(sub)\<close> on a nullable column.\<close>

definition areaIncludes :: "string option \<Rightarrow> string \<Rightarrow> bool" where
  "areaIncludes a sub = (case a of None \<Rightarrow> False | Some s \<Rightarrow> strIncludes s sub)"

section \<open>Order sequencer\<close>

text \<open>\<^verbatim>\<open>[...orders].sort((a, b) => a.totalQuantity - b.totalQuantity)\<close>; the sort is stable.\<close>

definition sortOrdersByQuantity :: "ProductionOrder list \<Rightarrow> ProductionOrder list" where
  "sortOrdersByQuantity orders = sort_key totalQuantity orders"

definition getPreparationStepsForOrder :: "ProductionOrder \<Rightarrow> OrderProcessStep list" where
  "getPreparationStepsForOrder order =
     sort_key ops_sequence
       (filter (\<lambda>step. areaIncludes (ps_productionAreaId (processStep step)) ''prep'')
          (processSteps order))"

definition getFillingStepsForOrder :: "ProductionOrder \<Rightarrow> OrderProcessStep list" where
  "getFillingStepsForOrder order =
     sort_key ops_sequence
       (filter (\<lambda>step. areaIncludes (ps_productionAreaId (processStep step)) ''filling'')
          (processSteps order))"

section \<open>Skill and availability matcher\<close>

definition hasRequiredSkills :: "ProcessStep \<Rightarrow> Employee \<Rightarrow> bool" where
  "hasRequiredSkills step employee =
     list_all (\<lambda>skill. skill \<in> set (skills employee)) (requiredSkills step)"

definition outsideWorkingTime :: "date \<Rightarrow> Employee \<Rightarrow> bool" where
  "outsideWorkingTime taskTime employee =
     (let taskHour = (of_int (getHours taskTime) + of_int (getMinutes taskTime) / 60 :: rat);
          workStart = parseTimeString (wtm_startTime (workingTimeModel employee));
          workEnd = parseTimeString (wtm_endTime (workingTimeModel employee))
      in taskHour < workStart \<or> taskHour > workEnd)"

text \<open>
  The conflict test of the matcher. The candidate interval it tests runs from
  \<open>taskTime\<close> to \<open>taskTime + timePerKg\<close> minutes: the order and its quantity are not
  arguments of the matcher. A comparison with an Invalid Date is false.
\<close>

definition hasConflict :: "ProcessStep \<Rightarrow> date \<Rightarrow> Employee \<Rightarrow> ScheduledTask list \<Rightarrow> bool" where
  "hasConflict step taskTime employee existingTasks =
     list_ex (\<lambda>task.
        if employeeId task \<noteq> emp_id employee then False
        else (taskTime \<ge> startTime task \<and> taskTime < endTime task) \<or>
             (taskTime < startTime task \<and>
              (case newDate (jsPlus taskTime (jsTimes (timePerKg step) 60000)) of
                 None \<Rightarrow> False
               | Some probe \<Rightarrow> probe > startTime task)))
       existingTasks"

definition findSuitableEmployees ::
    "ProcessStep \<Rightarrow> date \<Rightarrow> Employee list \<Rightarrow> ScheduledTask list \<Rightarrow> Employee list" where
  "findSuitableEmployees step taskTime allEmployees existingTasks =
     filter (\<lambda>employee.
        if \<not> hasRequiredSkills step employee then False
        else if outsideWorkingTime taskTime employee then False
        else \<not> hasConflict step taskTime employee existingTasks)
       allEmployees"

text \<open>
  The matcher called with an Invalid Date: \<^verbatim>\<open>getHours()\<close> is \<^verbatim>\<open>NaN\<close> and every comparison
  with the candidate instant is false, so the working-time test and the conflict test
  reject nobody and only the skill test filters.
\<close>

definition findSuitableEmployeesInvalid :: "ProcessStep \<Rightarrow> Employee list \<Rightarrow> Employee list" where
  "findSuitableEmployeesInvalid step allEmployees =
     filter (\<lambda>employee. hasRequiredSkills step employee) allEmployees"

section \<open>Forward scheduler (preparation)\<close>

text \<open>
  The local state of a scheduling pass: the task list, the issue list and the shared
  clock \<^verbatim>\<open>currentTime\<close>.
\<close>

record passState =
  pass_tasks :: "ScheduledTask list"
  pass_issues :: "issue list"
  currentTime :: date

text \<open>
  A pass is followed as long as every Date it constructs is valid. Where the code
  constructs an Invalid Date the pass is \<open>Inl\<close>: \<open>InvalidAnchor\<close> when the anchor of the
  clock is invalid, and \<open>InvalidDate st orderId orderStepId durationMinutes employeeIds\<close>
  when, in state \<open>st\<close>, the end (forward) or the start (backward) computed for that
  order step is invalid although the step is staffed. The code then pushes, for each
  of \<open>employeeIds\<close>, an assignment with \<^verbatim>\<open>estimatedDuration\<close> \<open>durationMinutes\<close> that has the
  clock of \<open>st\<close> at one end and the Invalid Date at the other, and goes on with the
  Invalid Date as its clock.
\<close>

datatype outOfRange = InvalidAnchor | InvalidDate passState string string int "string list"

text \<open>A loop whose body may leave the range.\<close>

fun runSteps :: "('s \<Rightarrow> 'a \<Rightarrow> 'e + 's) \<Rightarrow> 's \<Rightarrow> 'a list \<Rightarrow> 'e + 's" where
  "runSteps f st [] = Inr st"
| "runSteps f st (x # xs) = (case f st x of Inl e \<Rightarrow> Inl e | Inr st' \<Rightarrow> runSteps f st' xs)"

text \<open>
  The inner assignment loop
  \<^verbatim>\<open>for (i = 0; i < requiredEmployees && i < suitableEmployees.length; i++)\<close>
  pushes one task for each of the first \<open>requiredEmployees\<close> suitable employees.
\<close>

definition assignEmployees ::
    "ProductionOrder \<Rightarrow> OrderProcessStep \<Rightarrow> ProcessStep \<Rightarrow> Employee list \<Rightarrow>
     date \<Rightarrow> date \<Rightarrow> int \<Rightarrow> ScheduledTask list" where
  "assignEmployees order orderStep step suitableEmployees start end durationMinutes =
     map (\<lambda>employee.
        \<lparr> orderId = order_id order,
          orderProcessStepId = ops_id orderStep,
          processStepId = ps_id step,
          employeeId = emp_id employee,
          startTime = start,
          endTime = end,
          estimatedDuration = durationMinutes,
          productionAreaId = (case ps_productionAreaId step of None \<Rightarrow> [] | Some a \<Rightarrow> a) \<rparr>)
       (take (nat (requiredEmployees step)) suitableEmployees)"

text \<open>One iteration of the inner loop of \<^verbatim>\<open>schedulePreparationRooms\<close>.\<close>

definition prepStep ::
    "ProcessStep list \<Rightarrow> Employee list \<Rightarrow> ProductionOrder \<Rightarrow> passState \<Rightarrow>
     OrderProcessStep \<Rightarrow> outOfRange + passState" where
  "prepStep procSteps availableEmployees order st orderStep =
     (case find (\<lambda>ps. ps_id ps = ops_processStepId orderStep) procSteps of
        None \<Rightarrow> Inr st
      | Some step \<Rightarrow>
          let suitableEmployees =
                findSuitableEmployees step (currentTime st) availableEmployees (pass_tasks st)
          in if int (length suitableEmployees) < requiredEmployees step then
               Inr (st\<lparr>pass_issues := pass_issues st @
                    [InsufficientStaff (ps_name step) (productName order)
                       (requiredEmployees step) (length suitableEmployees)]\<rparr>)
             else
               let durationMinutes = jsTimes (timePerKg step) (totalQuantity order)
               in case newDate (jsPlus (currentTime st) (jsTimes durationMinutes 60000)) of
                    None \<Rightarrow>
                      Inl (InvalidDate st (order_id order) (ops_id orderStep) durationMinutes
                             (map emp_id (take (nat (requiredEmployees step)) suitableEmployees)))
                  | Some endT \<Rightarrow>
                      Inr (st\<lparr>pass_tasks := pass_tasks st @
                              assignEmployees order orderStep step suitableEmployees
                                (currentTime st) endT durationMinutes,
                            currentTime := endT\<rparr>))"

definition prepOrder ::
    "ProcessStep list \<Rightarrow> Employee list \<Rightarrow> passState \<Rightarrow> ProductionOrder \<Rightarrow>
     outOfRange + passState" where
  "prepOrder procSteps availableEmployees st order =
     runSteps (prepStep procSteps availableEmployees order) st (getPreparationStepsForOrder order)"

text \<open>
  \<open>now\<close> is the value of \<^verbatim>\<open>new Date()\<close> when the pass starts: the clock is anchored at
  06:00 of the current day, whatever date the run was asked for.
\<close>

definition schedulePreparationRooms ::
    "ProcessStep list \<Rightarrow> date \<Rightarrow> ProductionOrder list \<Rightarrow> Employee list \<Rightarrow>
     outOfRange + passState" where
  "schedulePreparationRooms procSteps now orders availableEmployees =
     (case newDate (createDateTime now 6 0) of
        None \<Rightarrow> Inl InvalidAnchor
      | Some start \<Rightarrow>
          runSteps (prepOrder procSteps availableEmployees)
            \<lparr>pass_tasks = [], pass_issues = [], currentTime = start\<rparr> orders)"

section \<open>Dependency checker\<close>

record dependency =
  met :: bool
  reason :: string

definition checkDependencies :: "string \<Rightarrow> ProcessStep \<Rightarrow> ScheduledTask list \<Rightarrow> dependency" where
  "checkDependencies oid step existingTasks =
     (if areaIncludes (ps_productionAreaId step) ''filling'' then
        let orderPreparationTasks =
              filter (\<lambda>task. orderId task = oid \<and> strIncludes (productionAreaId task) ''prep'')
                existingTasks
        in if length orderPreparationTasks = 0
           then \<lparr>met = False, reason = ''Preparation steps must be completed before filling''\<rparr>
           else \<lparr>met = True, reason = []\<rparr>
      else \<lparr>met = True, reason = []\<rparr>)"

section \<open>Backward scheduler (filling)\<close>

text \<open>
  One iteration of the inner loop of \<^verbatim>\<open>scheduleFillingRoom\<close>. The start is computed
  before the matcher is called, so the matcher may be called with an Invalid Date; if
  the step is then understaffed it is skipped and the Invalid Date is dropped.
\<close>

definition fillStep ::
    "ProcessStep list \<Rightarrow> Employee list \<Rightarrow> ScheduledTask list \<Rightarrow> ProductionOrder \<Rightarrow>
     passState \<Rightarrow> OrderProcessStep \<Rightarrow> outOfRange + passState" where
  "fillStep procSteps availableEmployees preparationTasks order st orderStep =
     (case find (\<lambda>ps. ps_id ps = ops_processStepId orderStep) procSteps of
        None \<Rightarrow> Inr st
      | Some step \<Rightarrow>
          let dependencyMet = checkDependencies (order_id order) step preparationTasks
          in if \<not> met dependencyMet then
               Inr (st\<lparr>pass_issues := pass_issues st @
                    [DependencyNotMet (ps_name step) (productName order) (reason dependencyMet)]\<rparr>)
             else
               let durationMinutes = jsTimes (timePerKg step) (totalQuantity order);
                   startDate = newDate (jsMinus (currentTime st) (jsTimes durationMinutes 60000));
                   suitableEmployees =
                     (case startDate of
                        None \<Rightarrow> findSuitableEmployeesInvalid step availableEmployees
                      | Some startT \<Rightarrow>
                          findSuitableEmployees step startT availableEmployees
                            (pass_tasks st @ preparationTasks))
               in if int (length suitableEmployees) < requiredEmployees step then
                    Inr (st\<lparr>pass_issues := pass_issues st @
                         [InsufficientStaff (ps_name step) (productName order)
                            (requiredEmployees step) (length suitableEmployees)]\<rparr>)
                  else
                    case startDate of
                      None \<Rightarrow>
                        Inl (InvalidDate st (order_id order) (ops_id orderStep) durationMinutes
                               (map emp_id
                                  (take (nat (requiredEmployees step)) suitableEmployees)))
                    | Some startT \<Rightarrow>
                        Inr (st\<lparr>pass_tasks := pass_tasks st @
                                assignEmployees order orderStep step suitableEmployees
                                  startT (currentTime st) durationMinutes,
                              currentTime := startT\<rparr>))"

definition fillOrder ::
    "ProcessStep list \<Rightarrow> Employee list \<Rightarrow> ScheduledTask list \<Rightarrow> passState \<Rightarrow>
     ProductionOrder \<Rightarrow> outOfRange + passState" where
  "fillOrder procSteps availableEmployees preparationTasks st order =
     runSteps (fillStep procSteps availableEmployees preparationTasks order) st
       (rev (getFillingStepsForOrder order))"

definition scheduleFillingRoom ::
    "ProcessStep list \<Rightarrow> date \<Rightarrow> ProductionOrder list \<Rightarrow> Employee list \<Rightarrow>
     ScheduledTask list \<Rightarrow> outOfRange + passState" where
  "scheduleFillingRoom procSteps now orders availableEmployees preparationTasks =
     (case newDate (createDateTime now 17 0) of
        None \<Rightarrow> Inl InvalidAnchor
      | Some finish \<Rightarrow>
          runSteps (fillOrder procSteps availableEmployees preparationTasks)
            \<lparr>pass_tasks = [], pass_issues = [], currentTime = finish\<rparr>
            (rev orders))"

section \<open>Schedule validator\<close>

text \<open>
  \<^verbatim>\<open>Map<string, ScheduledTask[]>\<close> keeps its keys in insertion order: an association
  list. \<open>groupTask\<close> is the body of the grouping loop.
\<close>

fun groupTask ::
    "(string \<times> ScheduledTask list) list \<Rightarrow> ScheduledTask \<Rightarrow> (string \<times> ScheduledTask list) list" where
  "groupTask [] task = [(employeeId task, [task])]"
| "groupTask ((k, ts) # m) task =
     (if k = employeeId task then (k, ts @ [task]) # m else (k, ts) # groupTask m task)"

definition groupByEmployee :: "ScheduledTask list \<Rightarrow> (string \<times> ScheduledTask list) list" where
  "groupByEmployee ts = foldl groupTask [] ts"

text \<open>
  The overlap loop over a worker's tasks sorted by start time:
  \<^verbatim>\<open>for (i = 1; i < n; i++) if (sorted[i].startTime < sorted[i - 1].endTime) issues.push(msg)\<close>.
\<close>

fun overlapIssues :: "issue \<Rightarrow> ScheduledTask list \<Rightarrow> issue list" where
  "overlapIssues msg (a # b # rest) =
     (if startTime b < endTime a then [msg] else []) @ overlapIssues msg (b # rest)"
| "overlapIssues msg rest = []"

text \<open>
  The hours are summed exactly; the code sums doubles, so its total can differ from
  this one in the last place.
\<close>

definition totalHours :: "ScheduledTask list \<Rightarrow> rat" where
  "totalHours ts = foldl (\<lambda>sum task. sum + of_int (endTime task - startTime task) / (1000 * 60 * 60)) 0 ts"

text \<open>The body of \<^verbatim>\<open>employeeTasks.forEach\<close> in \<^verbatim>\<open>AISchedulingEngine.validateSchedule\<close>.\<close>

definition employeeIssues :: "Employee list \<Rightarrow> string \<times> ScheduledTask list \<Rightarrow> issue list" where
  "employeeIssues employees g =
     (case g of (eid, empTasks) \<Rightarrow>
        (case find (\<lambda>e. emp_id e = eid) employees of
           None \<Rightarrow> []
         | Some employee \<Rightarrow>
             let sortedTasks = sort_key startTime empTasks
             in overlapIssues (Overlapping (emp_name employee)) sortedTasks @
                (if totalHours sortedTasks > maxHours (workingTimeModel employee)
                 then [ExceedsMaxHours (emp_name employee) (totalHours sortedTasks)
                         (maxHours (workingTimeModel employee))]
                 else [])))"

definition validateSchedule :: "ScheduledTask list \<Rightarrow> Employee list \<Rightarrow> issue list" where
  "validateSchedule ts employees = concat (map (employeeIssues employees) (groupByEmployee ts))"




section \<open>Recommendation generator\<close>

definition jsDivide :: "nat \<Rightarrow> nat \<Rightarrow> jsnum" where
  "jsDivide a b = (if b = 0 then (if a = 0 then NaN else Infinity) else Num (of_nat a / of_nat b))"

fun jsTimes100 :: "jsnum \<Rightarrow> jsnum" where
  "jsTimes100 (Num q) = Num (q * 100)"
| "jsTimes100 other = other"

fun jsLess :: "jsnum \<Rightarrow> rat \<Rightarrow> bool" where
  "jsLess (Num q) c = (q < c)"
| "jsLess other c = False"

fun jsGreater :: "jsnum \<Rightarrow> rat \<Rightarrow> bool" where
  "jsGreater (Num q) c = (q > c)"
| "jsGreater Infinity c = True"
| "jsGreater NaN c = False"

definition generateRecommendations ::
    "ProcessStep list \<Rightarrow> ScheduledTask list \<Rightarrow> Employee list \<Rightarrow> nat \<Rightarrow> recommendation list" where
  "generateRecommendations procSteps ts employees totalOrders =
     (let assignedEmployees = length (remdups (map employeeId ts));
          availableEmployees = length (filter isAvailable employees);
          utilization = jsTimes100 (jsDivide assignedEmployees availableEmployees);
          requiredSkillSet = rev (remdups (rev (concat (map requiredSkills procSteps))));
          availableSkills = concat (map skills (filter isAvailable employees))
      in (if jsLess utilization 70 then [LowUtilization utilization] else []) @
         (if jsGreater utilization 95 then [HighUtilization utilization] else []) @
         map SkillGap (filter (\<lambda>skill. skill \<notin> set availableSkills) requiredSkillSet) @
         (if length ts > 0 \<and>
             (of_int (foldl (\<lambda>sum task. sum + estimatedDuration task) 0 ts) / of_nat (length ts) :: rat) > 240
          then [BreakDownLongTasks] else []))"

section \<open>Persistence and run orchestration\<close>

fun createAll :: "(InsertShiftAssignment \<Rightarrow> thrown + unit) \<Rightarrow> ScheduledTask list \<Rightarrow> thrown + unit" where
  "createAll create [] = Inr ()"
| "createAll create (task # rest) =
     (case create \<lparr> isa_employeeId = employeeId task,
                     isa_orderProcessStepId = orderProcessStepId task,
                     isa_startTime = startTime task,
                     isa_endTime = endTime task,
                     isa_status = ''scheduled'' \<rparr> of
        Inl err \<Rightarrow> Inl err
      | Inr u \<Rightarrow> createAll create rest)"

definition saveShiftAssignments :: "IStorage \<Rightarrow> date \<Rightarrow> ScheduledTask list \<Rightarrow> thrown + unit" where
  "saveShiftAssignments storage now ts =
     (case getShiftAssignments storage (case ts of [] \<Rightarrow> now | task # rest \<Rightarrow> startTime task) of
        Inl err \<Rightarrow> Inl err
      | Inr existingAssignments \<Rightarrow> createAll (createShiftAssignment storage) ts)"

fun errorMessage :: "thrown \<Rightarrow> string" where
  "errorMessage (JsError message) = message"
| "errorMessage JsOther = ''Unknown error''"

text \<open>
  How a run can end without a result: the promise rejects with what a storage call
  threw outside the \<^verbatim>\<open>try\<close> block, or a pass constructs an Invalid Date and the run is
  not followed further.
\<close>

datatype failure = Rejected thrown | LeftDateRange outOfRange

text \<open>
  \<^verbatim>\<open>generateOptimalSchedule(date)\<close>. The result is \<open>Inl (Rejected err)\<close> when the promise
  rejects (a throw outside the \<^verbatim>\<open>try\<close> block: while loading the data or the orders) and
  \<open>Inr\<close> of the returned \<^verbatim>\<open>SchedulingResult\<close> otherwise. Inside the \<^verbatim>\<open>try\<close> block only the two
  storage calls of \<^verbatim>\<open>saveShiftAssignments\<close> can throw in this model. \<open>now\<close> stands for
  the readings of \<^verbatim>\<open>new Date()\<close> during the run, taken to fall on one day.
\<close>

definition generateOptimalSchedule :: "IStorage \<Rightarrow> date \<Rightarrow> date \<Rightarrow> failure + SchedulingResult" where
  "generateOptimalSchedule storage now date =
     (case getEmployees storage of Inl err \<Rightarrow> Inl (Rejected err) | Inr employees \<Rightarrow>
      case getProductionAreas storage of Inl err \<Rightarrow> Inl (Rejected err) | Inr productionAreas \<Rightarrow>
      case getProcessSteps storage of Inl err \<Rightarrow> Inl (Rejected err) | Inr procSteps \<Rightarrow>
      case getProductionOrdersWithDetails storage date of
        Inl err \<Rightarrow> Inl (Rejected err)
      | Inr orders \<Rightarrow>
        let availableEmployees = filter isAvailable employees
        in if length orders = 0 then
             Inr \<lparr>tasks = [], feasible = True, issues = [], recommendations = [NoOrders]\<rparr>
           else
             let sortedOrders = sortOrdersByQuantity orders
             in case schedulePreparationRooms procSteps now sortedOrders availableEmployees of
                  Inl left \<Rightarrow> Inl (LeftDateRange left)
                | Inr preparationTasks \<Rightarrow>
                   (case scheduleFillingRoom procSteps now sortedOrders availableEmployees
                           (pass_tasks preparationTasks) of
                      Inl left \<Rightarrow> Inl (LeftDateRange left)
                    | Inr fillingTasks \<Rightarrow>
                        let allTasks = pass_tasks preparationTasks @ pass_tasks fillingTasks;
                            allIssues = pass_issues preparationTasks @ pass_issues fillingTasks @
                                        validateSchedule allTasks availableEmployees;
                            recs = generateRecommendations procSteps allTasks availableEmployees
                                     (length orders)
                        in case saveShiftAssignments storage now allTasks of
                             Inl err \<Rightarrow>
                               Inr \<lparr>tasks = [], feasible = False,
                                    issues = [SchedulingFailed (errorMessage err)],
                                    recommendations = [ReviewInput]\<rparr>
                           | Inr u \<Rightarrow>
                               Inr \<lparr>tasks = allTasks, feasible = (length allIssues = 0),
                                    issues = allIssues, recommendations = recs\<rparr>))"

section \<open>Notions used in the properties\<close>

text \<open>Two assignments overlap when each starts before the other ends.\<close>

definition overlaps :: "ScheduledTask \<Rightarrow> ScheduledTask \<Rightarrow> bool" where
  "overlaps a b = (startTime a < endTime b \<and> startTime b < endTime a)"



text \<open>What a task created for an order step looks like.\<close>

definition createdFor ::
    "ProductionOrder \<Rightarrow> OrderProcessStep \<Rightarrow> ProcessStep \<Rightarrow> Employee list \<Rightarrow> ScheduledTask \<Rightarrow> bool" where
  "createdFor order orderStep step pool t =
     (orderId t = order_id order \<and> orderProcessStepId t = ops_id orderStep \<and>
      processStepId t = ps_id step \<and> employeeId t \<in> emp_id ` set pool \<and>
      estimatedDuration t = timePerKg step * totalQuantity order \<and>
      endTime t = startTime t + estimatedDuration t * 60000)"

text \<open>A task of a pass was created for some order step of the given orders.\<close>

definition madeByPass :: "ProcessStep list \<Rightarrow> ProductionOrder list \<Rightarrow> Employee list \<Rightarrow> ScheduledTask \<Rightarrow> bool" where
  "madeByPass procSteps orders pool t =
     (\<exists>order \<in> set orders. \<exists>orderStep \<in> set (processSteps order). \<exists>step.
        find (\<lambda>ps. ps_id ps = ops_processStepId orderStep) procSteps = Some step \<and>
        createdFor order orderStep step pool t)"

text \<open>
  \<open>extendsFor order st st'\<close>: from \<open>st\<close> to \<open>st'\<close> the clock has not gone back, and every
  task of \<open>st'\<close> that is not a task of \<open>st\<close> belongs to \<open>order\<close>, has a positive length and
  lies between the two clock readings.
\<close>

definition extendsFor :: "ProductionOrder \<Rightarrow> passState \<Rightarrow> passState \<Rightarrow> bool" where
  "extendsFor order st st' =
     (currentTime st \<le> currentTime st' \<and>
      (\<forall>t \<in> set (pass_tasks st').
         t \<in> set (pass_tasks st) \<or>
         (orderId t = order_id order \<and> currentTime st \<le> startTime t \<and>
          startTime t < endTime t \<and> endTime t \<le> currentTime st')))"

text \<open>
  \<open>forwardOrdered orders st\<close>: every task of \<open>st\<close> belongs to one of the orders, has a
  positive length and ends by the clock, and a task of an earlier order ends before
  any task of a later order starts.
\<close>

definition forwardOrdered :: "ProductionOrder list \<Rightarrow> passState \<Rightarrow> bool" where
  "forwardOrdered orders st =
     ((\<forall>t \<in> set (pass_tasks st).
         orderId t \<in> order_id ` set orders \<and> startTime t < endTime t \<and>
         endTime t \<le> currentTime st) \<and>
      (\<forall>i j. i < j \<longrightarrow> j < length orders \<longrightarrow>
         (\<forall>t1 \<in> set (pass_tasks st). \<forall>t2 \<in> set (pass_tasks st).
            orderId t1 = order_id (orders ! i) \<longrightarrow> orderId t2 = order_id (orders ! j) \<longrightarrow>
            endTime t1 \<le> startTime t2)))"

text \<open>
  \<open>anchoredAt T st\<close>: the state of a backward pass whose clock started at \<open>T\<close>. While
  no task has been placed the clock still reads \<open>T\<close>; afterwards the first task placed
  ends at \<open>T\<close>, and neither the clock nor the end of any task lies after \<open>T\<close>.
\<close>

definition anchoredAt :: "date \<Rightarrow> passState \<Rightarrow> bool" where
  "anchoredAt T st =
     ((pass_tasks st = [] \<longrightarrow> currentTime st = T) \<and>
      (pass_tasks st \<noteq> [] \<longrightarrow> endTime (hd (pass_tasks st)) = T) \<and>
      currentTime st \<le> T \<and>
      (\<forall>t \<in> set (pass_tasks st). endTime t \<le> T))"

section \<open>A production day\<close>

text \<open>
  A small production day used to exercise the theorems below. All times are on day 0
  (06:00 is 21600000 ms, 17:00 is 61200000 ms).
\<close>

definition step_cutting :: ProcessStep where
  "step_cutting = \<lparr> ps_id = ''ps-cut'', ps_name = ''Cutting'', requiredSkills = [''cutting''],
       timePerKg = 1, requiredEmployees = 1, ps_productionAreaId = Some ''prep-1'' \<rparr>"

definition step_filling :: ProcessStep where
  "step_filling = \<lparr> ps_id = ''ps-fill'', ps_name = ''Filling'', requiredSkills = [''filling''],
       timePerKg = 1, requiredEmployees = 1, ps_productionAreaId = Some ''filling-1'' \<rparr>"

text \<open>A cutting step that needs two workers.\<close>

definition step_cutting_pair :: ProcessStep where
  "step_cutting_pair = \<lparr> ps_id = ''ps-cut2'', ps_name = ''Cutting (pair)'',
       requiredSkills = [''cutting''], timePerKg = 2, requiredEmployees = 2,
       ps_productionAreaId = Some ''prep-1'' \<rparr>"

definition worker_anna :: Employee where
  "worker_anna = \<lparr> emp_id = ''e1'', emp_name = ''Anna'', skills = [''cutting'', ''filling''],
       workingTimeModel = \<lparr> wtm_startTime = (0, 0), wtm_endTime = (23, 59), maxHours = 8 \<rparr>,
       isAvailable = True \<rparr>"

definition worker_ben :: Employee where
  "worker_ben = \<lparr> emp_id = ''e2'', emp_name = ''Ben'', skills = [''cutting'', ''filling''],
       workingTimeModel = \<lparr> wtm_startTime = (0, 0), wtm_endTime = (23, 59), maxHours = 8 \<rparr>,
       isAvailable = False \<rparr>"

definition ostep :: "string \<Rightarrow> int \<Rightarrow> ProcessStep \<Rightarrow> OrderProcessStep" where
  "ostep i n step =
     \<lparr> ops_id = i, ops_processStepId = ps_id step, ops_sequence = n, processStep = step \<rparr>"

definition order_small :: ProductionOrder where
  "order_small = \<lparr> order_id = ''o1'', productName = ''Pesto'', totalQuantity = 50,
       priority = ''low'',
       processSteps = [ostep ''os1'' 1 step_cutting, ostep ''os2'' 2 step_filling] \<rparr>"

definition order_large :: ProductionOrder where
  "order_large = \<lparr> order_id = ''o2'', productName = ''Salsa'', totalQuantity = 200,
       priority = ''high'',
       processSteps = [ostep ''os3'' 1 step_cutting, ostep ''os4'' 2 step_filling] \<rparr>"

definition order_huge :: ProductionOrder where
  "order_huge = \<lparr> order_id = ''o3'', productName = ''Hummus'', totalQuantity = 700,
       priority = ''medium'',
       processSteps = [ostep ''os5'' 1 step_cutting, ostep ''os6'' 2 step_filling] \<rparr>"

text \<open>A storage that answers every call; \<open>storage_day orders\<close> holds the given orders.\<close>

definition storage_day :: "ProductionOrder list \<Rightarrow> IStorage" where
  "storage_day orders = \<lparr> getEmployees = Inr [worker_anna, worker_ben],
      getProductionAreas = Inr [],
      getProcessSteps = Inr [step_cutting, step_filling],
      getProductionOrdersWithDetails = (\<lambda>d. Inr orders),
      getShiftAssignments = (\<lambda>d. Inr ()),
      createShiftAssignment = (\<lambda>a. Inr ()) \<rparr>"

text \<open>A storage that cannot be reached at all, and one that rejects every write.\<close>

definition storage_unreachable :: IStorage where
  "storage_unreachable = \<lparr> getEmployees = Inl (JsError ''connection lost''),
      getProductionAreas = Inl (JsError ''connection lost''),
      getProcessSteps = Inl (JsError ''connection lost''),
      getProductionOrdersWithDetails = (\<lambda>d. Inl (JsError ''connection lost'')),
      getShiftAssignments = (\<lambda>d. Inl (JsError ''connection lost'')),
      createShiftAssignment = (\<lambda>a. Inl (JsError ''connection lost'')) \<rparr>"

definition storage_readonly :: IStorage where
  "storage_readonly = \<lparr> getEmployees = Inr [worker_anna, worker_ben],
      getProductionAreas = Inr [],
      getProcessSteps = Inr [step_cutting, step_filling],
      getProductionOrdersWithDetails = (\<lambda>d. Inr [order_small]),
      getShiftAssignments = (\<lambda>d. Inr ()),
      createShiftAssignment = (\<lambda>a. Inl (JsError ''read-only store'')) \<rparr>"

text \<open>The tasks of the run for the orders \<open>o1\<close> (50 kg) and \<open>o2\<close> (200 kg), and of \<open>o3\<close>.\<close>

definition task_cutting_o1 :: ScheduledTask where
  "task_cutting_o1 = \<lparr> orderId = ''o1'', orderProcessStepId = ''os1'', processStepId = ''ps-cut'',
       employeeId = ''e1'', startTime = 21600000, endTime = 24600000, estimatedDuration = 50,
       productionAreaId = ''prep-1'' \<rparr>"

definition task_cutting_o2 :: ScheduledTask where
  "task_cutting_o2 = \<lparr> orderId = ''o2'', orderProcessStepId = ''os3'', processStepId = ''ps-cut'',
       employeeId = ''e1'', startTime = 24600000, endTime = 36600000, estimatedDuration = 200,
       productionAreaId = ''prep-1'' \<rparr>"

definition task_filling_o2 :: ScheduledTask where
  "task_filling_o2 = \<lparr> orderId = ''o2'', orderProcessStepId = ''os4'', processStepId = ''ps-fill'',
       employeeId = ''e1'', startTime = 49200000, endTime = 61200000, estimatedDuration = 200,
       productionAreaId = ''filling-1'' \<rparr>"

definition task_filling_o1 :: ScheduledTask where
  "task_filling_o1 = \<lparr> orderId = ''o1'', orderProcessStepId = ''os2'', processStepId = ''ps-fill'',
       employeeId = ''e1'', startTime = 46200000, endTime = 49200000, estimatedDuration = 50,
       productionAreaId = ''filling-1'' \<rparr>"

text \<open>Anna's cutting assignment for order \<open>o3\<close> (700 kg): 06:00 to 17:40.\<close>

definition task_cutting_o3 :: ScheduledTask where
  "task_cutting_o3 = \<lparr> orderId = ''o3'', orderProcessStepId = ''os5'', processStepId = ''ps-cut'',
       employeeId = ''e1'', startTime = 21600000, endTime = 63600000, estimatedDuration = 700,
       productionAreaId = ''prep-1'' \<rparr>"

definition task_filling_o3 :: ScheduledTask where
  "task_filling_o3 = \<lparr> orderId = ''o3'', orderProcessStepId = ''os6'', processStepId = ''ps-fill'',
       employeeId = ''e1'', startTime = 19200000, endTime = 61200000, estimatedDuration = 700,
       productionAreaId = ''filling-1'' \<rparr>"

text \<open>
  Steps and orders with the largest values of a 32-bit integer column: a soaking step
  of 100 min/kg and a steeping step of 2147483647 min/kg for orders of 2147483647 kg,
  and an ageing step of 2000000000 min/kg for orders of 50 kg and 200 kg.
\<close>

definition step_soaking :: ProcessStep where
  "step_soaking = \<lparr> ps_id = ''ps-soak'', ps_name = ''Soaking'', requiredSkills = [''cutting''],
       timePerKg = 100, requiredEmployees = 1, ps_productionAreaId = Some ''prep-1'' \<rparr>"

definition order_bulk :: ProductionOrder where
  "order_bulk = \<lparr> order_id = ''o4'', productName = ''Brine'', totalQuantity = 2147483647,
       priority = ''low'', processSteps = [ostep ''os7'' 1 step_soaking] \<rparr>"

definition step_steeping :: ProcessStep where
  "step_steeping = \<lparr> ps_id = ''ps-steep'', ps_name = ''Steeping'', requiredSkills = [''cutting''],
       timePerKg = 2147483647, requiredEmployees = 1, ps_productionAreaId = Some ''prep-1'' \<rparr>"

definition order_steeped :: ProductionOrder where
  "order_steeped = \<lparr> order_id = ''o7'', productName = ''Kombu'', totalQuantity = 2147483647,
       priority = ''low'', processSteps = [ostep ''os10'' 1 step_steeping] \<rparr>"

definition step_ageing :: ProcessStep where
  "step_ageing = \<lparr> ps_id = ''ps-age'', ps_name = ''Ageing'', requiredSkills = [''cutting''],
       timePerKg = 2000000000, requiredEmployees = 1, ps_productionAreaId = Some ''prep-2'' \<rparr>"

definition order_aged_small :: ProductionOrder where
  "order_aged_small = \<lparr> order_id = ''o5'', productName = ''Miso'', totalQuantity = 50,
       priority = ''low'', processSteps = [ostep ''os8'' 1 step_ageing] \<rparr>"

definition order_aged_large :: ProductionOrder where
  "order_aged_large = \<lparr> order_id = ''o6'', productName = ''Garum'', totalQuantity = 200,
       priority = ''high'', processSteps = [ostep ''os9'' 1 step_ageing] \<rparr>"

text \<open>Anna's ageing assignment for order \<open>o5\<close>: from 06:00 on, 100000000000 minutes.\<close>

definition task_ageing_o5 :: ScheduledTask where
  "task_ageing_o5 = \<lparr> orderId = ''o5'', orderProcessStepId = ''os8'', processStepId = ''ps-age'',
       employeeId = ''e1'', startTime = 21600000, endTime = 6000000021600000,
       estimatedDuration = 100000000000, productionAreaId = ''prep-2'' \<rparr>"

section \<open>Double arithmetic on valid Dates is exact\<close>

lemma roundToDouble_exact: "\<bar>x\<bar> \<le> 9007199254740992 \<Longrightarrow> roundToDouble x = x"
  by (simp add: roundToDouble_def)

lemma bitlen_gt:
  assumes "2 ^ k \<le> n" shows "int k < bitlen n"
proof -
  have "(0::int) < 2 ^ k" by simp
  with assms have n: "0 < n" by linarith
  from bitlen_bounds [OF n] have "n < 2 ^ nat (bitlen n)" by simp
  with assms have "(2::int) ^ k < 2 ^ nat (bitlen n)" by linarith
  then have "k < nat (bitlen n)" by (rule power_less_imp_less_exp [rotated]) simp
  then show ?thesis by simp
qed

lemma roundToDouble_magnitude:
  assumes big: "9007199254740992 < \<bar>x\<bar>"
  shows "2 ^ nat (bitlen \<bar>x\<bar> - 1) \<le> \<bar>roundToDouble x\<bar>"
proof -
  let ?n = "\<bar>x\<bar>"
  let ?L = "bitlen ?n"
  let ?e = "nat (?L - 53)"
  let ?q = "?n div 2 ^ ?e"
  let ?r = "?n mod 2 ^ ?e"
  let ?q' = "(if 2 * ?r > 2 ^ ?e \<or> (2 * ?r = 2 ^ ?e \<and> odd ?q) then ?q + 1 else ?q)"
  have n: "0 < ?n" using big by simp
  have "(2::int) ^ 53 \<le> ?n" using big by simp
  then have L: "53 < ?L" using bitlen_gt [of 53 ?n] by simp
  from bitlen_bounds [OF n] have lo: "2 ^ nat (?L - 1) \<le> ?n" by simp
  have split: "nat (?L - 1) = 52 + ?e" using L by simp
  have "(2::int) ^ 52 * 2 ^ ?e \<le> ?n" using lo by (simp add: split power_add)
  then have q: "2 ^ 52 \<le> ?q"
    by (metis (no_types) mult.commute zdiv_mono1 nonzero_mult_div_cancel_left power_not_zero
          zero_less_numeral zero_less_power zero_neq_numeral less_imp_le)
  have "?q \<le> ?q'" by simp
  with q have "2 ^ 52 \<le> ?q'" by linarith
  then have "(2::int) ^ 52 * 2 ^ ?e \<le> ?q' * 2 ^ ?e" by (simp add: mult_right_mono)
  then have "2 ^ nat (?L - 1) \<le> ?q' * 2 ^ ?e" by (simp add: split power_add)
  moreover have "roundToDouble x = sgn x * (?q' * 2 ^ ?e)"
    using big by (simp add: roundToDouble_def Let_def)
  moreover have "\<bar>sgn x * (?q' * 2 ^ ?e)\<bar> = \<bar>?q' * 2 ^ ?e\<bar>"
    using n by (simp add: abs_mult abs_sgn_eq)
  ultimately show ?thesis by linarith
qed


lemma roundToDouble_big:
  assumes "2 ^ k \<le> \<bar>x\<bar>" and "53 \<le> k"
  shows "2 ^ k \<le> \<bar>roundToDouble x\<bar>"
proof (cases "\<bar>x\<bar> \<le> 9007199254740992")
  case True
  then show ?thesis using assms by (simp add: roundToDouble_exact)
next
  case False
  then have "2 ^ nat (bitlen \<bar>x\<bar> - 1) \<le> \<bar>roundToDouble x\<bar>"
    by (simp add: roundToDouble_magnitude)
  moreover have "int k < bitlen \<bar>x\<bar>" using assms(1) by (rule bitlen_gt)
  then have "k \<le> nat (bitlen \<bar>x\<bar> - 1)" by simp
  then have "(2::int) ^ k \<le> 2 ^ nat (bitlen \<bar>x\<bar> - 1)" by (simp add: power_increasing)
  ultimately show ?thesis by linarith
qed

lemma roundToDouble_small:
  assumes "\<bar>roundToDouble x\<bar> < 9007199254740992"
  shows "roundToDouble x = x"
proof (rule roundToDouble_exact, rule ccontr)
  assume "\<not> \<bar>x\<bar> \<le> 9007199254740992"
  then have "2 ^ 53 \<le> \<bar>x\<bar>" by simp
  then have "2 ^ 53 \<le> \<bar>roundToDouble x\<bar>" by (rule roundToDouble_big) simp
  with assms show False by simp
qed

lemma roundToDouble_multiple_of_4:
  assumes four: "4 dvd x" and bound: "\<bar>x\<bar> < 2 ^ 55"
  shows "roundToDouble x = x"
proof (cases "\<bar>x\<bar> \<le> 9007199254740992")
  case True
  then show ?thesis by (rule roundToDouble_exact)
next
  case False
  let ?n = "\<bar>x\<bar>"
  let ?e = "nat (bitlen ?n - 53)"
  from False have "(2::int) ^ 53 \<le> ?n" by simp
  then have "53 < bitlen ?n" using bitlen_gt [of 53 ?n] by simp
  moreover have "bitlen ?n \<le> 55" using bound by (simp add: bitlen_le_iff_power)
  ultimately have "?e = 1 \<or> ?e = 2" by auto
  then have "(2::int) ^ ?e = 2 \<or> (2::int) ^ ?e = 4" by auto
  moreover have "4 dvd ?n" "2 dvd ?n" using four by auto
  ultimately have d: "2 ^ ?e dvd ?n" by auto
  then have r: "?n mod 2 ^ ?e = 0" by simp
  from d have "?n div 2 ^ ?e * 2 ^ ?e = ?n" by simp
  moreover have "sgn x * ?n = x" by (simp add: mult_sgn_abs)
  ultimately show ?thesis using False r by (simp add: roundToDouble_def Let_def)
qed

lemma date_after_exact:
  assumes cur: "validDate cur"
    and e: "newDate (jsPlus cur (jsTimes (jsTimes a b) 60000)) = Some e"
  shows "jsTimes a b = a * b \<and> e = cur + a * b * 60000 \<and> validDate e"
proof -
  let ?d = "roundToDouble (a * b)"
  let ?ms = "roundToDouble (?d * 60000)"
  from e have v: "validDate (roundToDouble (cur + ?ms))" and e': "e = roundToDouble (cur + ?ms)"
    by (auto simp: newDate_def jsPlus_def jsTimes_def split: if_splits)
  from v have "roundToDouble (cur + ?ms) = cur + ?ms"
    by (intro roundToDouble_small) (simp add: validDate_def)
  with v cur have ms: "\<bar>?ms\<bar> \<le> 17280000000000000" by (simp add: validDate_def)
  have "\<bar>?d * 60000\<bar> < 2 ^ 55"
  proof (rule ccontr)
    assume "\<not> \<bar>?d * 60000\<bar> < 2 ^ 55"
    then have "2 ^ 55 \<le> \<bar>?d * 60000\<bar>" by simp
    then have "2 ^ 55 \<le> \<bar>?ms\<bar>" by (rule roundToDouble_big) simp
    with ms show False by simp
  qed
  moreover have "4 dvd ?d * 60000" by simp
  ultimately have exact: "?ms = ?d * 60000" by (rule roundToDouble_multiple_of_4 [rotated])
  with ms have "\<bar>?d\<bar> < 9007199254740992" by simp
  then have d: "?d = a * b" by (rule roundToDouble_small)
  from v e' \<open>roundToDouble (cur + ?ms) = cur + ?ms\<close> exact d
  show ?thesis by (simp add: jsTimes_def)
qed

lemma date_before_exact:
  assumes cur: "validDate cur"
    and s: "newDate (jsMinus cur (jsTimes (jsTimes a b) 60000)) = Some s"
  shows "jsTimes a b = a * b \<and> s = cur - a * b * 60000 \<and> validDate s"
proof -
  let ?d = "roundToDouble (a * b)"
  let ?ms = "roundToDouble (?d * 60000)"
  from s have v: "validDate (roundToDouble (cur - ?ms))" and s': "s = roundToDouble (cur - ?ms)"
    by (auto simp: newDate_def jsMinus_def jsTimes_def split: if_splits)
  from v have r: "roundToDouble (cur - ?ms) = cur - ?ms"
    by (intro roundToDouble_small) (simp add: validDate_def)
  with v cur have ms: "\<bar>?ms\<bar> \<le> 17280000000000000" by (simp add: validDate_def)
  have "\<bar>?d * 60000\<bar> < 2 ^ 55"
  proof (rule ccontr)
    assume "\<not> \<bar>?d * 60000\<bar> < 2 ^ 55"
    then have "2 ^ 55 \<le> \<bar>?d * 60000\<bar>" by simp
    then have "2 ^ 55 \<le> \<bar>?ms\<bar>" by (rule roundToDouble_big) simp
    with ms show False by simp
  qed
  moreover have "4 dvd ?d * 60000" by simp
  ultimately have exact: "?ms = ?d * 60000" by (rule roundToDouble_multiple_of_4 [rotated])
  with ms have "\<bar>?d\<bar> < 9007199254740992" by simp
  then have d: "?d = a * b" by (rule roundToDouble_small)
  from v s' r exact d show ?thesis by (simp add: jsTimes_def)
qed

section \<open>Basic facts about the two passes\<close>

lemma runSteps_invariant:
  assumes "runSteps f st xs = Inr st'" and "P st"
    and "\<And>s x s'. x \<in> set xs \<Longrightarrow> P s \<Longrightarrow> f s x = Inr s' \<Longrightarrow> P s'"
  shows "P st'"
  using assms
proof (induction xs arbitrary: st)
  case Nil
  then show ?case by simp
next
  case (Cons x xs)
  from Cons.prems(1) obtain s where s: "f st x = Inr s" and rest: "runSteps f s xs = Inr st'"
    by (auto split: sum.splits)
  from Cons.prems(2) s have "P s" by (intro Cons.prems(3) [of x st s]) simp_all
  with rest Cons.prems(3) show ?case by (intro Cons.IH [of s]) auto
qed

lemma runSteps_append:
  "runSteps f st (xs @ ys) =
     (case runSteps f st xs of Inl e \<Rightarrow> Inl e | Inr st' \<Rightarrow> runSteps f st' ys)"
  by (induction xs arbitrary: st) (auto split: sum.splits)

lemma set_findSuitableEmployees:
  "set (findSuitableEmployees step t pool existing) \<subseteq> set pool"
  by (auto simp: findSuitableEmployees_def)

lemma assignEmployees_task:
  assumes "t \<in> set (assignEmployees order orderStep step suitable s e d)"
  shows "orderId t = order_id order \<and> orderProcessStepId t = ops_id orderStep \<and>
         processStepId t = ps_id step \<and> employeeId t \<in> emp_id ` set suitable \<and>
         startTime t = s \<and> endTime t = e \<and> estimatedDuration t = d"
  using assms by (auto simp: assignEmployees_def dest: in_set_takeD)

text \<open>
  What an iteration of the forward loop does when it stays in range: it leaves the
  tasks and the clock alone, or it places the step over exactly
  \<open>timePerKg * totalQuantity\<close> minutes from the clock on.
\<close>

lemma prepStep_cases:
  assumes run: "prepStep procSteps pool order st orderStep = Inr st'"
    and valid: "validDate (currentTime st)"
  obtains (skip) "pass_tasks st' = pass_tasks st" and "currentTime st' = currentTime st"
  | (place) step where
      "find (\<lambda>ps. ps_id ps = ops_processStepId orderStep) procSteps = Some step"
      and "\<not> int (length (findSuitableEmployees step (currentTime st) pool (pass_tasks st)))
             < requiredEmployees step"
      and "currentTime st' = currentTime st + timePerKg step * totalQuantity order * 60000"
      and "validDate (currentTime st')"
      and "pass_tasks st' = pass_tasks st @
             assignEmployees order orderStep step
               (findSuitableEmployees step (currentTime st) pool (pass_tasks st))
               (currentTime st) (currentTime st') (timePerKg step * totalQuantity order)"
proof (cases "find (\<lambda>ps. ps_id ps = ops_processStepId orderStep) procSteps")
  case None
  with run have "st' = st" by (simp add: prepStep_def)
  then show ?thesis by (intro skip) simp_all
next
  case (Some step)
  let ?suit = "findSuitableEmployees step (currentTime st) pool (pass_tasks st)"
  show ?thesis
  proof (cases "int (length ?suit) < requiredEmployees step")
    case True
    with run Some show ?thesis by (intro skip) (auto simp: prepStep_def Let_def)
  next
    case False
    let ?d = "jsTimes (timePerKg step) (totalQuantity order)"
    from run Some False obtain endT where
      e: "newDate (jsPlus (currentTime st) (jsTimes ?d 60000)) = Some endT"
      and st': "st' = st\<lparr>pass_tasks := pass_tasks st @
                   assignEmployees order orderStep step ?suit (currentTime st) endT ?d,
                 currentTime := endT\<rparr>"
      by (auto simp: prepStep_def Let_def split: option.splits)
    from date_after_exact [OF valid e]
    have "?d = timePerKg step * totalQuantity order"
      and "endT = currentTime st + timePerKg step * totalQuantity order * 60000"
      and "validDate endT" by blast+
    with st' Some False show ?thesis by (intro place [of step]) simp_all
  qed
qed

lemma fillStep_cases:
  assumes run: "fillStep procSteps pool prep order st orderStep = Inr st'"
    and valid: "validDate (currentTime st)"
  obtains (skip) "pass_tasks st' = pass_tasks st" and "currentTime st' = currentTime st"
  | (place) step where
      "find (\<lambda>ps. ps_id ps = ops_processStepId orderStep) procSteps = Some step"
      and "\<not> int (length (findSuitableEmployees step (currentTime st') pool (pass_tasks st @ prep)))
             < requiredEmployees step"
      and "currentTime st' = currentTime st - timePerKg step * totalQuantity order * 60000"
      and "validDate (currentTime st')"
      and "pass_tasks st' = pass_tasks st @
             assignEmployees order orderStep step
               (findSuitableEmployees step (currentTime st') pool (pass_tasks st @ prep))
               (currentTime st') (currentTime st) (timePerKg step * totalQuantity order)"
proof (cases "find (\<lambda>ps. ps_id ps = ops_processStepId orderStep) procSteps")
  case None
  with run have "st' = st" by (simp add: fillStep_def)
  then show ?thesis by (intro skip) simp_all
next
  case (Some step)
  let ?d = "jsTimes (timePerKg step) (totalQuantity order)"
  let ?startDate = "newDate (jsMinus (currentTime st) (jsTimes ?d 60000))"
  let ?suit = "case ?startDate of
                 None \<Rightarrow> findSuitableEmployeesInvalid step pool
               | Some startT \<Rightarrow> findSuitableEmployees step startT pool (pass_tasks st @ prep)"
  show ?thesis
  proof (cases "\<not> met (checkDependencies (order_id order) step prep) \<or>
                int (length ?suit) < requiredEmployees step")
    case True
    then consider "\<not> met (checkDependencies (order_id order) step prep)"
      | "met (checkDependencies (order_id order) step prep)"
        "int (length ?suit) < requiredEmployees step" by blast
    then have "st' = st\<lparr>pass_issues := pass_issues st' \<rparr>"
    proof cases
      case 1
      with run Some show ?thesis by (auto simp: fillStep_def Let_def)
    next
      case 2
      with run Some show ?thesis by (auto simp: fillStep_def Let_def)
    qed
    then have "pass_tasks st' = pass_tasks st" "currentTime st' = currentTime st"
      by (metis passState.select_convs(1) passState.surjective passState.update_convs(2),
          metis passState.select_convs(3) passState.surjective passState.update_convs(2))
    then show ?thesis by (rule skip)
  next
    case False
    with run Some obtain startT where
      s: "?startDate = Some startT"
      and st': "st' = st\<lparr>pass_tasks := pass_tasks st @
                   assignEmployees order orderStep step
                     (findSuitableEmployees step startT pool (pass_tasks st @ prep))
                     startT (currentTime st) ?d,
                 currentTime := startT\<rparr>"
      by (auto simp: fillStep_def Let_def split: option.splits)
    from date_before_exact [OF valid s]
    have "?d = timePerKg step * totalQuantity order"
      and "startT = currentTime st - timePerKg step * totalQuantity order * 60000"
      and "validDate startT" by blast+
    moreover from False s
    have "\<not> int (length (findSuitableEmployees step startT pool (pass_tasks st @ prep)))
            < requiredEmployees step" by simp
    ultimately show ?thesis using st' Some by (intro place [of step]) simp_all
  qed
qed


lemma newDate_Some: "newDate ms = Some t \<Longrightarrow> t = ms \<and> validDate t"
  by (auto simp: newDate_def split: if_splits)

lemma prepStep_task:
  assumes run: "prepStep procSteps pool order st orderStep = Inr st'"
    and valid: "validDate (currentTime st)"
    and t: "t \<in> set (pass_tasks st')"
  shows "t \<in> set (pass_tasks st) \<or>
         (\<exists>step. find (\<lambda>ps. ps_id ps = ops_processStepId orderStep) procSteps = Some step \<and>
            createdFor order orderStep step pool t \<and> startTime t = currentTime st \<and>
            endTime t = currentTime st' \<and>
            currentTime st' = currentTime st + timePerKg step * totalQuantity order * 60000)"
  using run valid
proof (cases rule: prepStep_cases)
  case skip
  with t show ?thesis by simp
next
  case (place step)
  let ?suit = "findSuitableEmployees step (currentTime st) pool (pass_tasks st)"
  from t place(5) consider "t \<in> set (pass_tasks st)"
    | "t \<in> set (assignEmployees order orderStep step ?suit (currentTime st) (currentTime st')
                   (timePerKg step * totalQuantity order))" by auto
  then show ?thesis
  proof cases
    case 1
    then show ?thesis ..
  next
    case 2
    from assignEmployees_task [OF 2] set_findSuitableEmployees [of step "currentTime st" pool "pass_tasks st"]
      place(3)
    have "createdFor order orderStep step pool t \<and> startTime t = currentTime st \<and>
          endTime t = currentTime st'"
      by (auto simp: createdFor_def)
    with place(1,3) show ?thesis by blast
  qed
qed

lemma fillStep_task:
  assumes run: "fillStep procSteps pool prep order st orderStep = Inr st'"
    and valid: "validDate (currentTime st)"
    and t: "t \<in> set (pass_tasks st')"
  shows "t \<in> set (pass_tasks st) \<or>
         (\<exists>step. find (\<lambda>ps. ps_id ps = ops_processStepId orderStep) procSteps = Some step \<and>
            createdFor order orderStep step pool t \<and> endTime t = currentTime st \<and>
            startTime t = currentTime st' \<and>
            currentTime st' = currentTime st - timePerKg step * totalQuantity order * 60000)"
  using run valid
proof (cases rule: fillStep_cases)
  case skip
  with t show ?thesis by simp
next
  case (place step)
  let ?suit = "findSuitableEmployees step (currentTime st') pool (pass_tasks st @ prep)"
  from t place(5) consider "t \<in> set (pass_tasks st)"
    | "t \<in> set (assignEmployees order orderStep step ?suit (currentTime st') (currentTime st)
                   (timePerKg step * totalQuantity order))" by auto
  then show ?thesis
  proof cases
    case 1
    then show ?thesis ..
  next
    case 2
    from assignEmployees_task [OF 2]
      set_findSuitableEmployees [of step "currentTime st'" pool "pass_tasks st @ prep"] place(3)
    have "createdFor order orderStep step pool t \<and> endTime t = currentTime st \<and>
          startTime t = currentTime st'"
      by (auto simp: createdFor_def)
    with place(1,3) show ?thesis by blast
  qed
qed

lemma prepStep_validDate:
  assumes "prepStep procSteps pool order st orderStep = Inr st'" and "validDate (currentTime st)"
  shows "validDate (currentTime st')"
  using assms
proof (cases rule: prepStep_cases)
  case skip
  with assms(2) show ?thesis by simp
next
  case (place step)
  then show ?thesis by simp
qed

lemma fillStep_validDate:
  assumes "fillStep procSteps pool prep order st orderStep = Inr st'" and "validDate (currentTime st)"
  shows "validDate (currentTime st')"
  using assms
proof (cases rule: fillStep_cases)
  case skip
  with assms(2) show ?thesis by simp
next
  case (place step)
  then show ?thesis by simp
qed

lemma set_getPreparationStepsForOrder:
  "set (getPreparationStepsForOrder order) \<subseteq> set (processSteps order)"
  by (auto simp: getPreparationStepsForOrder_def)

lemma set_getFillingStepsForOrder:
  "set (getFillingStepsForOrder order) \<subseteq> set (processSteps order)"
  by (auto simp: getFillingStepsForOrder_def)

text \<open>
  The invariant of both passes: the clock is a valid Date and every task was created
  for an order step of the given orders.
\<close>

lemma prepStep_madeByPass:
  assumes run: "prepStep procSteps pool order st orderStep = Inr st'"
    and inv: "validDate (currentTime st) \<and> (\<forall>t \<in> set (pass_tasks st). madeByPass procSteps orders pool t)"
    and o: "order \<in> set orders" and s: "orderStep \<in> set (processSteps order)"
  shows "validDate (currentTime st') \<and> (\<forall>t \<in> set (pass_tasks st'). madeByPass procSteps orders pool t)"
proof (intro conjI ballI)
  from inv have valid: "validDate (currentTime st)" ..
  show "validDate (currentTime st')" by (rule prepStep_validDate [OF run valid])
  fix t assume "t \<in> set (pass_tasks st')"
  from prepStep_task [OF run valid this] show "madeByPass procSteps orders pool t"
  proof
    assume "t \<in> set (pass_tasks st)" with inv show ?thesis by blast
  next
    assume "\<exists>step. find (\<lambda>ps. ps_id ps = ops_processStepId orderStep) procSteps = Some step \<and>
            createdFor order orderStep step pool t \<and> startTime t = currentTime st \<and>
            endTime t = currentTime st' \<and>
            currentTime st' = currentTime st + timePerKg step * totalQuantity order * 60000"
    with o s show ?thesis unfolding madeByPass_def by blast
  qed
qed

lemma fillStep_madeByPass:
  assumes run: "fillStep procSteps pool prep order st orderStep = Inr st'"
    and inv: "validDate (currentTime st) \<and> (\<forall>t \<in> set (pass_tasks st). madeByPass procSteps orders pool t)"
    and o: "order \<in> set orders" and s: "orderStep \<in> set (processSteps order)"
  shows "validDate (currentTime st') \<and> (\<forall>t \<in> set (pass_tasks st'). madeByPass procSteps orders pool t)"
proof (intro conjI ballI)
  from inv have valid: "validDate (currentTime st)" ..
  show "validDate (currentTime st')" by (rule fillStep_validDate [OF run valid])
  fix t assume "t \<in> set (pass_tasks st')"
  from fillStep_task [OF run valid this] show "madeByPass procSteps orders pool t"
  proof
    assume "t \<in> set (pass_tasks st)" with inv show ?thesis by blast
  next
    assume "\<exists>step. find (\<lambda>ps. ps_id ps = ops_processStepId orderStep) procSteps = Some step \<and>
            createdFor order orderStep step pool t \<and> endTime t = currentTime st \<and>
            startTime t = currentTime st' \<and>
            currentTime st' = currentTime st - timePerKg step * totalQuantity order * 60000"
    with o s show ?thesis unfolding madeByPass_def by blast
  qed
qed

lemma schedulePreparationRooms_madeByPass:
  assumes "schedulePreparationRooms procSteps now orders pool = Inr st"
  shows "validDate (currentTime st) \<and>
         (\<forall>t \<in> set (pass_tasks st). madeByPass procSteps orders pool t)"
proof -
  let ?P = "\<lambda>s. validDate (currentTime s) \<and>
                 (\<forall>t \<in> set (pass_tasks s). madeByPass procSteps orders pool t)"
  from assms obtain start where start: "newDate (createDateTime now 6 0) = Some start"
    and run: "runSteps (prepOrder procSteps pool)
                \<lparr>pass_tasks = [], pass_issues = [], currentTime = start\<rparr> orders = Inr st"
    by (auto simp: schedulePreparationRooms_def split: option.splits)
  from run show ?thesis
  proof (rule runSteps_invariant [where P = ?P])
    show "?P \<lparr>pass_tasks = [], pass_issues = [], currentTime = start\<rparr>"
      using newDate_Some [OF start] by auto
  next
    fix s :: passState and order s'
    assume o: "order \<in> set orders" and inv: "?P s"
      and "prepOrder procSteps pool s order = Inr s'"
    then have "runSteps (prepStep procSteps pool order) s (getPreparationStepsForOrder order) = Inr s'"
      by (simp add: prepOrder_def)
    then show "?P s'"
    proof (rule runSteps_invariant [where P = ?P])
      show "?P s" by (rule inv)
    next
      fix u :: passState and orderStep u'
      assume "orderStep \<in> set (getPreparationStepsForOrder order)" and "?P u"
        and "prepStep procSteps pool order u orderStep = Inr u'"
      then show "?P u'"
        using prepStep_madeByPass [of procSteps pool order u orderStep u' orders] o
          set_getPreparationStepsForOrder [of order] by blast
    qed
  qed
qed

lemma scheduleFillingRoom_madeByPass:
  assumes "scheduleFillingRoom procSteps now orders pool prep = Inr st"
  shows "validDate (currentTime st) \<and>
         (\<forall>t \<in> set (pass_tasks st). madeByPass procSteps orders pool t)"
proof -
  let ?P = "\<lambda>s. validDate (currentTime s) \<and>
                 (\<forall>t \<in> set (pass_tasks s). madeByPass procSteps orders pool t)"
  from assms obtain finish where finish: "newDate (createDateTime now 17 0) = Some finish"
    and run: "runSteps (fillOrder procSteps pool prep)
                \<lparr>pass_tasks = [], pass_issues = [], currentTime = finish\<rparr> (rev orders) = Inr st"
    by (auto simp: scheduleFillingRoom_def split: option.splits)
  from run show ?thesis
  proof (rule runSteps_invariant [where P = ?P])
    show "?P \<lparr>pass_tasks = [], pass_issues = [], currentTime = finish\<rparr>"
      using newDate_Some [OF finish] by auto
  next
    fix s :: passState and order s'
    assume "order \<in> set (rev orders)"
    then have o: "order \<in> set orders" by simp
    assume inv: "?P s" and "fillOrder procSteps pool prep s order = Inr s'"
    then have "runSteps (fillStep procSteps pool prep order) s
                 (rev (getFillingStepsForOrder order)) = Inr s'"
      by (simp add: fillOrder_def)
    then show "?P s'"
    proof (rule runSteps_invariant [where P = ?P])
      show "?P s" by (rule inv)
    next
      fix u :: passState and orderStep u'
      assume "orderStep \<in> set (rev (getFillingStepsForOrder order))" and "?P u"
        and "fillStep procSteps pool prep order u orderStep = Inr u'"
      then show "?P u'"
        using fillStep_madeByPass [of procSteps pool prep order u orderStep u' orders] o
          set_getFillingStepsForOrder [of order] by auto
    qed
  qed
qed

section \<open>The production day, evaluated\<close>

lemmas scenario_defs =
  step_cutting_def step_filling_def step_cutting_pair_def worker_anna_def worker_ben_def
  ostep_def order_small_def order_large_def order_huge_def storage_day_def
  task_cutting_o1_def task_cutting_o2_def task_cutting_o3_def
  task_filling_o1_def task_filling_o2_def task_filling_o3_def
  step_soaking_def order_bulk_def step_steeping_def order_steeped_def step_ageing_def order_aged_small_def order_aged_large_def
  task_ageing_o5_def

lemma newDate_roundToDouble_big:
  assumes "9007199254740992 \<le> \<bar>x\<bar>"
  shows "newDate (roundToDouble x) = None"
proof -
  from assms have "2 ^ 53 \<le> \<bar>x\<bar>" by simp
  then have "2 ^ 53 \<le> \<bar>roundToDouble x\<bar>" by (rule roundToDouble_big) simp
  then show ?thesis by (simp add: newDate_def validDate_def)
qed

lemmas number_defs =
  jsTimes_def jsPlus_def jsMinus_def validDate_def newDate_def
  roundToDouble_exact roundToDouble_multiple_of_4 newDate_roundToDouble_big

lemmas matcher_defs =
  findSuitableEmployees_def hasRequiredSkills_def outsideWorkingTime_def hasConflict_def
  getHours_def getMinutes_def parseTimeString_def number_defs

text \<open>The loop bodies with their local bindings substituted.\<close>

lemmas prepStep_eval = prepStep_def [unfolded Let_def]

lemmas fillStep_eval = fillStep_def [unfolded Let_def]

lemmas pass_defs =
  schedulePreparationRooms_def prepOrder_def prepStep_eval getPreparationStepsForOrder_def
  scheduleFillingRoom_def fillOrder_def fillStep_eval getFillingStepsForOrder_def
  checkDependencies_def assignEmployees_def areaIncludes_def createDateTime_def
  sortOrdersByQuantity_def Let_def

lemma prep_run_two_orders:
  "schedulePreparationRooms [step_cutting, step_filling] 0
     (sortOrdersByQuantity [order_large, order_small]) [worker_anna] =
   Inr \<lparr>pass_tasks = [task_cutting_o1, task_cutting_o2], pass_issues = [],
        currentTime = 36600000\<rparr>"
  by (simp add: scenario_defs matcher_defs pass_defs)

lemma fill_run_two_orders:
  "scheduleFillingRoom [step_cutting, step_filling] 0
     (sortOrdersByQuantity [order_large, order_small]) [worker_anna]
     [task_cutting_o1, task_cutting_o2] =
   Inr \<lparr>pass_tasks = [task_filling_o2, task_filling_o1], pass_issues = [],
        currentTime = 46200000\<rparr>"
  by (simp add: scenario_defs matcher_defs pass_defs)

lemma prep_run_huge_order:
  "schedulePreparationRooms [step_cutting, step_filling] 0
     (sortOrdersByQuantity [order_huge]) [worker_anna] =
   Inr \<lparr>pass_tasks = [task_cutting_o3], pass_issues = [], currentTime = 63600000\<rparr>"
  by (simp add: scenario_defs matcher_defs pass_defs)

lemma fill_run_huge_order:
  "scheduleFillingRoom [step_cutting, step_filling] 0
     (sortOrdersByQuantity [order_huge]) [worker_anna] [task_cutting_o3] =
   Inr \<lparr>pass_tasks = [task_filling_o3], pass_issues = [], currentTime = 19200000\<rparr>"
  by (simp add: scenario_defs matcher_defs pass_defs)

lemma prep_run_bulk_order:
  "schedulePreparationRooms [step_soaking] 0 (sortOrdersByQuantity [order_bulk]) [worker_anna] =
   Inl (InvalidDate \<lparr>pass_tasks = [], pass_issues = [], currentTime = 21600000\<rparr>
          ''o4'' ''os7'' 214748364700 [''e1''])"
  by (simp add: scenario_defs matcher_defs pass_defs)

lemma rounded_product:
  "jsTimes 2147483647 2147483647 = 4611686014132420608"
  by (simp add: jsTimes_def roundToDouble_def Let_def compute_bitlen)

lemma rounded_product_end:
  "newDate (jsPlus 21600000 (jsTimes 4611686014132420608 60000)) = None"
  by (simp add: jsTimes_def jsPlus_def newDate_def validDate_def roundToDouble_def Let_def
        compute_bitlen)

lemma prep_run_steeped_order:
  "schedulePreparationRooms [step_steeping] 0 (sortOrdersByQuantity [order_steeped])
     [worker_anna] =
   Inl (InvalidDate \<lparr>pass_tasks = [], pass_issues = [], currentTime = 21600000\<rparr>
          ''o7'' ''os10'' 4611686014132420608 [''e1''])"
proof -
  have anchor: "newDate (createDateTime 0 6 0) = Some 21600000"
    by (simp add: createDateTime_def newDate_def validDate_def)
  have anna: "findSuitableEmployees step_steeping 21600000 [worker_anna] [] = [worker_anna]"
    by (simp add: scenario_defs matcher_defs)
  have step: "timePerKg step_steeping = 2147483647" "requiredEmployees step_steeping = 1"
      "ps_id step_steeping = ''ps-steep''" "ps_productionAreaId step_steeping = Some ''prep-1''"
    by (simp_all add: step_steeping_def)
  have "emp_id worker_anna = ''e1''" by (simp add: worker_anna_def)
  with anchor anna step show ?thesis
    by (simp add: schedulePreparationRooms_def sortOrdersByQuantity_def prepOrder_def
          getPreparationStepsForOrder_def order_steeped_def ostep_def areaIncludes_def
          prepStep_eval rounded_product rounded_product_end)
qed

lemma prep_run_aged_orders:
  "schedulePreparationRooms [step_ageing] 0
     (sortOrdersByQuantity [order_aged_large, order_aged_small]) [worker_anna] =
   Inl (InvalidDate \<lparr>pass_tasks = [task_ageing_o5], pass_issues = [],
                     currentTime = 6000000021600000\<rparr>
          ''o6'' ''os9'' 400000000000 [''e1''])"
  by (simp add: scenario_defs matcher_defs pass_defs)

lemma prep_run_aged_small_order:
  "schedulePreparationRooms [step_ageing] 0
     (sortOrdersByQuantity [order_aged_small]) [worker_anna] =
   Inr \<lparr>pass_tasks = [task_ageing_o5], pass_issues = [], currentTime = 6000000021600000\<rparr>"
  by (simp add: scenario_defs matcher_defs pass_defs)

lemma validate_two_orders:
  "validateSchedule [task_cutting_o1, task_cutting_o2, task_filling_o2, task_filling_o1]
     [worker_anna] = [ExceedsMaxHours ''Anna'' (25 / 3) 8]"
  by (simp add: scenario_defs validateSchedule_def groupByEmployee_def employeeIssues_def
        totalHours_def Let_def)

lemma validate_huge_order:
  "validateSchedule [task_cutting_o3, task_filling_o3] [worker_anna] =
     [Overlapping ''Anna'', ExceedsMaxHours ''Anna'' (70 / 3) 8]"
  by (simp add: scenario_defs validateSchedule_def groupByEmployee_def employeeIssues_def
        totalHours_def Let_def)

lemma recommend_two_orders:
  "generateRecommendations [step_cutting, step_filling]
     [task_cutting_o1, task_cutting_o2, task_filling_o2, task_filling_o1] [worker_anna] n =
   [HighUtilization (Num 100)]"
  by (simp add: scenario_defs generateRecommendations_def jsDivide_def Let_def)

lemma run_two_orders:
  "generateOptimalSchedule (storage_day [order_large, order_small]) 0 86400000 =
   Inr \<lparr>tasks = [task_cutting_o1, task_cutting_o2, task_filling_o2, task_filling_o1],
        feasible = False, issues = [ExceedsMaxHours ''Anna'' (25 / 3) 8],
        recommendations = [HighUtilization (Num 100)]\<rparr>"
proof -
  have pool: "isAvailable worker_anna" "\<not> isAvailable worker_ben"
    by (simp_all add: worker_anna_def worker_ben_def)
  show ?thesis
    unfolding generateOptimalSchedule_def
    by (simp add: storage_day_def pool prep_run_two_orders fill_run_two_orders
          validate_two_orders recommend_two_orders saveShiftAssignments_def Let_def)
qed


lemma run_huge_order:
  "generateOptimalSchedule (storage_day [order_huge]) 0 86400000 =
   Inr \<lparr>tasks = [task_cutting_o3, task_filling_o3], feasible = False,
        issues = [Overlapping ''Anna'', ExceedsMaxHours ''Anna'' (70 / 3) 8],
        recommendations = [HighUtilization (Num 100), BreakDownLongTasks]\<rparr>"
proof -
  have pool: "isAvailable worker_anna" "\<not> isAvailable worker_ben"
    by (simp_all add: worker_anna_def worker_ben_def)
  have recs: "generateRecommendations [step_cutting, step_filling]
       [task_cutting_o3, task_filling_o3] [worker_anna] (Suc 0) =
     [HighUtilization (Num 100), BreakDownLongTasks]"
    by (simp add: scenario_defs generateRecommendations_def jsDivide_def Let_def)
  show ?thesis
    unfolding generateOptimalSchedule_def
    by (simp add: storage_day_def pool prep_run_huge_order fill_run_huge_order
          validate_huge_order recs saveShiftAssignments_def Let_def)
qed

lemma prep_run_small_order:
  "schedulePreparationRooms [step_cutting, step_filling] 0
     (sortOrdersByQuantity [order_small]) [worker_anna] =
   Inr \<lparr>pass_tasks = [task_cutting_o1], pass_issues = [], currentTime = 24600000\<rparr>"
  by (simp add: scenario_defs matcher_defs pass_defs)

lemma fill_run_small_order:
  "scheduleFillingRoom [step_cutting, step_filling] 0
     (sortOrdersByQuantity [order_small]) [worker_anna] [task_cutting_o1] =
   Inr \<lparr>pass_tasks = [task_filling_o1\<lparr>startTime := 58200000, endTime := 61200000\<rparr>],
        pass_issues = [], currentTime = 58200000\<rparr>"
  by (simp add: scenario_defs matcher_defs pass_defs)

lemma run_readonly:
  "generateOptimalSchedule storage_readonly 0 86400000 =
     Inr \<lparr>tasks = [], feasible = False, issues = [SchedulingFailed ''read-only store''],
          recommendations = [ReviewInput]\<rparr>"
proof -
  have pool: "isAvailable worker_anna" "\<not> isAvailable worker_ben"
    by (simp_all add: worker_anna_def worker_ben_def)
  show ?thesis
    unfolding generateOptimalSchedule_def
    by (simp add: storage_readonly_def pool prep_run_small_order fill_run_small_order
          saveShiftAssignments_def Let_def)
qed

lemma anna_alone_for_pair:
  "findSuitableEmployees step_cutting_pair 21600000 [worker_anna] [] = [worker_anna]"
  by (simp add: scenario_defs matcher_defs)

section \<open>Skill and availability matcher: properties\<close>

text \<open>
  C1 fails on the code. The matcher tests the candidate against the interval from
  \<open>t\<close> to \<open>t + timePerKg\<close> minutes, not to \<open>t + timePerKg * totalQuantity\<close> minutes.
  For the 700 kg order the filling step is tried at 05:20 and lasts until 17:00; Anna
  is already cutting from 06:00 to 17:40, the matcher still returns her, the backward
  pass books her twice and the engine's own validator reports the overlap.
\<close>

theorem matcher_misses_overlap_in_full_interval:
  "findSuitableEmployees step_filling 19200000 [worker_anna] [task_cutting_o3] = [worker_anna] \<and>
   employeeId task_cutting_o3 = emp_id worker_anna \<and>
   startTime task_cutting_o3 < 19200000 + timePerKg step_filling * totalQuantity order_huge * 60000 \<and>
   19200000 < endTime task_cutting_o3 \<and>
   scheduleFillingRoom [step_cutting, step_filling] 0
     (sortOrdersByQuantity [order_huge]) [worker_anna] [task_cutting_o3] =
     Inr \<lparr>pass_tasks = [task_filling_o3], pass_issues = [], currentTime = 19200000\<rparr> \<and>
   overlaps task_cutting_o3 task_filling_o3 \<and>
   generateOptimalSchedule (storage_day [order_huge]) 0 86400000 =
     Inr \<lparr>tasks = [task_cutting_o3, task_filling_o3], feasible = False,
          issues = [Overlapping ''Anna'', ExceedsMaxHours ''Anna'' (70 / 3) 8],
          recommendations = [HighUtilization (Num 100), BreakDownLongTasks]\<rparr>"
  by (simp add: fill_run_huge_order run_huge_order)
     (simp add: scenario_defs matcher_defs overlaps_def)

section \<open>Run orchestration: properties\<close>



text \<open>
  C9 fails on the code. The inputs are loaded before the guarded block is entered: a
  storage call that throws there is not caught, the run rejects and returns no result
  at all, where the claim promises a result with \<open>feasible = False\<close>, no tasks and one
  synthetic issue. A storage call that throws inside the guarded block, while the
  assignments are persisted, is caught and does give that result.
\<close>

theorem load_failure_rejects:
  "getEmployees storage_unreachable = Inl (JsError ''connection lost'') \<and>
   generateOptimalSchedule storage_unreachable 0 86400000 =
     Inl (Rejected (JsError ''connection lost'')) \<and>
   createShiftAssignment storage_readonly
     \<lparr>isa_employeeId = ''e1'', isa_orderProcessStepId = ''os1'', isa_startTime = 21600000,
      isa_endTime = 24600000, isa_status = ''scheduled''\<rparr> = Inl (JsError ''read-only store'') \<and>
   generateOptimalSchedule storage_readonly 0 86400000 =
     Inr \<lparr>tasks = [], feasible = False, issues = [SchedulingFailed ''read-only store''],
          recommendations = [ReviewInput]\<rparr>"
  by (simp add: run_readonly)
     (simp add: generateOptimalSchedule_def storage_unreachable_def storage_readonly_def)



section \<open>Schedule validator: properties\<close>

subsection \<open>Grouping by employee\<close>







subsection \<open>Pairwise overlap and the adjacent-pair loop\<close>














subsection \<open>Overlaps are reported\<close>



section \<open>Forward and backward pass: properties\<close>

subsection \<open>Durations\<close>

text \<open>
  C4 as stated fails: the durations and the time values are doubles, and a Date has a
  limited range. For the order of 2147483647 kg, the soaking step of 100 min/kg is
  staffed with Anna and lasts 214748364700 minutes; its end, computed from 06:00, lies
  beyond the last valid Date, so the assignment gets an Invalid Date as its end, which
  is neither that many minutes after its start nor after its start at all. With the
  steeping step of 2147483647 min/kg the \<^verbatim>\<open>estimatedDuration\<close> is the product rounded to
  a double, 4611686014132420608, one less than the product.
\<close>

theorem assignment_end_invalid_date:
  "0 < timePerKg step_soaking \<and> 0 < totalQuantity order_bulk \<and>
   jsTimes (timePerKg step_soaking) (totalQuantity order_bulk) = 214748364700 \<and>
   newDate (jsPlus 21600000 (jsTimes 214748364700 60000)) = None \<and>
   schedulePreparationRooms [step_soaking] 0 (sortOrdersByQuantity [order_bulk]) [worker_anna] =
     Inl (InvalidDate \<lparr>pass_tasks = [], pass_issues = [], currentTime = 21600000\<rparr>
            ''o4'' ''os7'' 214748364700 [''e1'']) \<and>
   schedulePreparationRooms [step_steeping] 0 (sortOrdersByQuantity [order_steeped])
       [worker_anna] =
     Inl (InvalidDate \<lparr>pass_tasks = [], pass_issues = [], currentTime = 21600000\<rparr>
            ''o7'' ''os10'' 4611686014132420608 [''e1'']) \<and>
   timePerKg step_steeping * totalQuantity order_steeped = 4611686014132420609"
  by (simp add: prep_run_bulk_order prep_run_steeped_order)
     (simp add: scenario_defs number_defs)

text \<open>
  C4, amended. When a pass constructs only valid Dates, every assignment it produces
  was created for an order and one of its steps, its \<^verbatim>\<open>estimatedDuration\<close> is
  \<^verbatim>\<open>timePerKg\<close> times \<^verbatim>\<open>totalQuantity\<close> exactly, its end is its start plus exactly that
  many minutes, and when both factors are positive the end lies after the start.
\<close>

theorem assignment_duration_exact:
  assumes "schedulePreparationRooms procSteps now orders pool = Inr st \<or>
           scheduleFillingRoom procSteps now orders pool prep = Inr st"
    and "t \<in> set (pass_tasks st)"
  shows "\<exists>order \<in> set orders. \<exists>orderStep \<in> set (processSteps order). \<exists>step.
           find (\<lambda>ps. ps_id ps = ops_processStepId orderStep) procSteps = Some step \<and>
           orderId t = order_id order \<and> orderProcessStepId t = ops_id orderStep \<and>
           processStepId t = ps_id step \<and>
           estimatedDuration t = timePerKg step * totalQuantity order \<and>
           endTime t - startTime t = timePerKg step * totalQuantity order * 60000 \<and>
           (0 < timePerKg step \<and> 0 < totalQuantity order \<longrightarrow> startTime t < endTime t)"
proof -
  from assms have "madeByPass procSteps orders pool t"
    using schedulePreparationRooms_madeByPass [of procSteps now orders pool st]
      scheduleFillingRoom_madeByPass [of procSteps now orders pool prep st] by blast
  then obtain order orderStep step where
    o: "order \<in> set orders" and s: "orderStep \<in> set (processSteps order)"
    and f: "find (\<lambda>ps. ps_id ps = ops_processStepId orderStep) procSteps = Some step"
    and c: "createdFor order orderStep step pool t"
    unfolding madeByPass_def by blast
  from c have "0 < timePerKg step \<and> 0 < totalQuantity order \<longrightarrow> startTime t < endTime t"
    by (auto simp: createdFor_def)
  with o s f c show ?thesis unfolding createdFor_def by force
qed

theorem assignment_duration_exact_witness:
  "scheduleFillingRoom [step_cutting, step_filling] 0
     (sortOrdersByQuantity [order_large, order_small]) [worker_anna]
     [task_cutting_o1, task_cutting_o2] =
     Inr \<lparr>pass_tasks = [task_filling_o2, task_filling_o1], pass_issues = [],
          currentTime = 46200000\<rparr> \<and>
   (\<exists>order \<in> set (sortOrdersByQuantity [order_large, order_small]).
      \<exists>orderStep \<in> set (processSteps order). \<exists>step.
        find (\<lambda>ps. ps_id ps = ops_processStepId orderStep) [step_cutting, step_filling] = Some step \<and>
        orderId task_filling_o2 = order_id order \<and>
        orderProcessStepId task_filling_o2 = ops_id orderStep \<and>
        processStepId task_filling_o2 = ps_id step \<and>
        estimatedDuration task_filling_o2 = timePerKg step * totalQuantity order \<and>
        endTime task_filling_o2 - startTime task_filling_o2 =
          timePerKg step * totalQuantity order * 60000 \<and>
        (0 < timePerKg step \<and> 0 < totalQuantity order \<longrightarrow>
           startTime task_filling_o2 < endTime task_filling_o2))"
proof -
  let ?st = "\<lparr>pass_tasks = [task_filling_o2, task_filling_o1], pass_issues = [],
              currentTime = 46200000\<rparr>"
  have m: "task_filling_o2 \<in> set (pass_tasks ?st)" by simp
  from assignment_duration_exact [OF disjI2 [OF fill_run_two_orders] m] fill_run_two_orders
  show ?thesis by blast
qed

subsection \<open>Understaffed steps\<close>

text \<open>
  C6. In the forward pass, a step for which the matcher finds fewer suitable workers
  than \<^verbatim>\<open>requiredEmployees\<close> appends exactly one issue carrying the needed and the found
  count, creates no assignment and leaves the shared clock where it was (the state
  after the step is the state before it with that one issue appended), so the next
  step is attempted at the same instant.
\<close>

theorem understaffed_step_skipped:
  assumes "find (\<lambda>ps. ps_id ps = ops_processStepId orderStep) procSteps = Some step"
    and "int (length (findSuitableEmployees step (currentTime st) pool (pass_tasks st)))
           < requiredEmployees step"
  shows "\<exists>st'. prepStep procSteps pool order st orderStep = Inr st' \<and>
           pass_issues st' =
             pass_issues st @
               [InsufficientStaff (ps_name step) (productName order) (requiredEmployees step)
                  (length (findSuitableEmployees step (currentTime st) pool (pass_tasks st)))] \<and>
           pass_tasks st' = pass_tasks st \<and>
           currentTime st' = currentTime st \<and>
           runSteps (prepStep procSteps pool order) st (orderStep # rest) =
             runSteps (prepStep procSteps pool order)
               (st\<lparr>pass_issues := pass_issues st @
                   [InsufficientStaff (ps_name step) (productName order) (requiredEmployees step)
                      (length (findSuitableEmployees step (currentTime st) pool (pass_tasks st)))]\<rparr>)
               rest"
  using assms by (simp add: prepStep_def Let_def)

theorem understaffed_step_skipped_witness:
  "prepStep [step_cutting_pair] [worker_anna] order_small
     \<lparr>pass_tasks = [], pass_issues = [], currentTime = 21600000\<rparr>
     (ostep ''os9'' 1 step_cutting_pair) =
   Inr \<lparr>pass_tasks = [], pass_issues = [InsufficientStaff ''Cutting (pair)'' ''Pesto'' 2 1],
        currentTime = 21600000\<rparr>"
proof -
  let ?st = "\<lparr>pass_tasks = [], pass_issues = [], currentTime = 21600000\<rparr>"
  have f: "find (\<lambda>ps. ps_id ps = ops_processStepId (ostep ''os9'' 1 step_cutting_pair))
             [step_cutting_pair] = Some step_cutting_pair"
    by (simp add: ostep_def)
  have n: "int (length (findSuitableEmployees step_cutting_pair (currentTime ?st) [worker_anna]
             (pass_tasks ?st))) < requiredEmployees step_cutting_pair"
    by (simp add: anna_alone_for_pair) (simp add: step_cutting_pair_def)
  from understaffed_step_skipped [OF f n, where order = order_small and rest = "[]"]
  obtain st' where
    run: "prepStep [step_cutting_pair] [worker_anna] order_small ?st
            (ostep ''os9'' 1 step_cutting_pair) = Inr st'"
    and i: "pass_issues st' = pass_issues ?st @
              [InsufficientStaff (ps_name step_cutting_pair) (productName order_small)
                 (requiredEmployees step_cutting_pair)
                 (length (findSuitableEmployees step_cutting_pair (currentTime ?st)
                    [worker_anna] (pass_tasks ?st)))]"
    and t: "pass_tasks st' = pass_tasks ?st"
    and c: "currentTime st' = currentTime ?st"
    by blast
  from i have "pass_issues st' = [InsufficientStaff ''Cutting (pair)'' ''Pesto'' 2 1]"
    by (simp add: anna_alone_for_pair) (simp add: step_cutting_pair_def order_small_def)
  with t c have "st' = \<lparr>pass_tasks = [], pass_issues = [InsufficientStaff ''Cutting (pair)'' ''Pesto'' 2 1],
                      currentTime = 21600000\<rparr>"
    by (cases st') simp
  with run show ?thesis by simp
qed

subsection \<open>Smaller orders first\<close>

lemma extendsFor_refl: "extendsFor order st st"
  by (simp add: extendsFor_def)

lemma extendsFor_trans:
  assumes "extendsFor order a b" and "extendsFor order b c"
  shows "extendsFor order a c"
  using assms unfolding extendsFor_def by (auto; force)

lemma prepStep_extendsFor:
  assumes run: "prepStep procSteps pool order st orderStep = Inr st'"
    and valid: "validDate (currentTime st)"
    and pos: "\<forall>step \<in> set procSteps. 0 < timePerKg step" and q: "0 < totalQuantity order"
  shows "extendsFor order st st'"
  using run valid
proof (cases rule: prepStep_cases)
  case skip
  then show ?thesis by (simp add: extendsFor_def)
next
  case (place step)
  from place(1) have "step \<in> set procSteps" by (auto simp: find_Some_iff)
  with pos q have d: "0 < timePerKg step * totalQuantity order" by simp
  with place(3) have clock: "currentTime st < currentTime st'" by simp
  show ?thesis
    unfolding extendsFor_def
  proof (intro conjI ballI)
    show "currentTime st \<le> currentTime st'" using clock by simp
  next
    fix t assume "t \<in> set (pass_tasks st')"
    with place(5) consider "t \<in> set (pass_tasks st)"
      | "t \<in> set (assignEmployees order orderStep step
                     (findSuitableEmployees step (currentTime st) pool (pass_tasks st))
                     (currentTime st) (currentTime st') (timePerKg step * totalQuantity order))"
      by auto
    then show "t \<in> set (pass_tasks st) \<or>
        (orderId t = order_id order \<and> currentTime st \<le> startTime t \<and>
         startTime t < endTime t \<and> endTime t \<le> currentTime st')"
    proof cases
      case 1
      then show ?thesis ..
    next
      case 2
      from assignEmployees_task [OF 2] clock show ?thesis by simp
    qed
  qed
qed

lemma prepOrder_extendsFor:
  assumes pos: "\<forall>step \<in> set procSteps. 0 < timePerKg step" and q: "0 < totalQuantity order"
    and run: "prepOrder procSteps pool st order = Inr st'"
    and valid: "validDate (currentTime st)"
  shows "extendsFor order st st' \<and> validDate (currentTime st')"
proof -
  let ?P = "\<lambda>s. extendsFor order st s \<and> validDate (currentTime s)"
  from run have "runSteps (prepStep procSteps pool order) st (getPreparationStepsForOrder order) =
      Inr st'" by (simp add: prepOrder_def)
  then show ?thesis
  proof (rule runSteps_invariant [where P = ?P])
    show "?P st" using valid by (simp add: extendsFor_refl)
  next
    fix s :: passState and orderStep s'
    assume inv: "?P s" and step: "prepStep procSteps pool order s orderStep = Inr s'"
    from inv have v: "validDate (currentTime s)" ..
    have "extendsFor order s s'" by (rule prepStep_extendsFor [OF step v pos q])
    with inv have "extendsFor order st s'" by (blast intro: extendsFor_trans)
    moreover have "validDate (currentTime s')" by (rule prepStep_validDate [OF step v])
    ultimately show "?P s'" ..
  qed
qed

lemma forwardOrdered_step:
  assumes inv: "forwardOrdered orders st"
    and ext: "extendsFor order st st'"
    and fresh: "order_id order \<notin> order_id ` set orders"
  shows "forwardOrdered (orders @ [order]) st'"
  unfolding forwardOrdered_def
proof (intro conjI ballI allI impI)
  fix t assume t: "t \<in> set (pass_tasks st')"
  with ext inv
  show "orderId t \<in> order_id ` set (orders @ [order])"
    and "startTime t < endTime t" and "endTime t \<le> currentTime st'"
    unfolding extendsFor_def forwardOrdered_def by (auto; force)+
next
  fix i j t1 t2
  assume ij: "i < j" and j: "j < length (orders @ [order])"
    and t1: "t1 \<in> set (pass_tasks st')" and t2: "t2 \<in> set (pass_tasks st')"
    and o1: "orderId t1 = order_id ((orders @ [order]) ! i)"
    and o2: "orderId t2 = order_id ((orders @ [order]) ! j)"
  from ij j have i: "i < length orders" by simp
  then have o1': "orderId t1 = order_id (orders ! i)" using o1 by (simp add: nth_append)
  with i fresh have "orderId t1 \<noteq> order_id order" by (metis imageI nth_mem)
  with t1 ext have old1: "t1 \<in> set (pass_tasks st)" unfolding extendsFor_def by blast
  show "endTime t1 \<le> startTime t2"
  proof (cases "j < length orders")
    case True
    then have o2': "orderId t2 = order_id (orders ! j)" using o2 by (simp add: nth_append)
    with True fresh have "orderId t2 \<noteq> order_id order" by (metis imageI nth_mem)
    with t2 ext have "t2 \<in> set (pass_tasks st)" unfolding extendsFor_def by blast
    with inv old1 ij True o1' o2' show ?thesis unfolding forwardOrdered_def by blast
  next
    case False
    with j have "j = length orders" by simp
    then have "orderId t2 = order_id order" using o2 by simp
    moreover from inv have "\<forall>t \<in> set (pass_tasks st). orderId t \<in> order_id ` set orders"
      unfolding forwardOrdered_def by blast
    ultimately have "t2 \<notin> set (pass_tasks st)" using fresh by metis
    with t2 ext have "currentTime st \<le> startTime t2" unfolding extendsFor_def by blast
    moreover from inv old1 have "endTime t1 \<le> currentTime st"
      unfolding forwardOrdered_def by blast
    ultimately show ?thesis by simp
  qed
qed

lemma runSteps_prepOrder_forwardOrdered:
  assumes pos: "\<forall>step \<in> set procSteps. 0 < timePerKg step"
    and empty: "pass_tasks st = []" and valid: "validDate (currentTime st)"
  shows "distinct (map order_id orders) \<Longrightarrow> \<forall>order \<in> set orders. 0 < totalQuantity order \<Longrightarrow>
         runSteps (prepOrder procSteps pool) st orders = Inr st' \<Longrightarrow>
         forwardOrdered orders st' \<and> validDate (currentTime st')"
proof (induction orders arbitrary: st' rule: rev_induct)
  case Nil
  then show ?case using empty valid by (simp add: forwardOrdered_def)
next
  case (snoc order orders)
  from snoc.prems(1,2) have d: "distinct (map order_id orders)"
    and fresh: "order_id order \<notin> order_id ` set orders"
    and q: "\<forall>order \<in> set orders. 0 < totalQuantity order" and q1: "0 < totalQuantity order"
    by auto
  from snoc.prems(3) obtain mid where
    mid: "runSteps (prepOrder procSteps pool) st orders = Inr mid"
    and last: "prepOrder procSteps pool mid order = Inr st'"
    by (auto simp: runSteps_append split: sum.splits)
  from snoc.IH [OF d q mid] have inv: "forwardOrdered orders mid"
    and v: "validDate (currentTime mid)" by simp_all
  from prepOrder_extendsFor [OF pos q1 last v]
  have ext: "extendsFor order mid st'" and v': "validDate (currentTime st')" by simp_all
  from inv ext fresh have "forwardOrdered (orders @ [order]) st'" by (rule forwardOrdered_step)
  with v' show ?case by simp
qed

lemma sorted_position:
  assumes s: "sorted (map f xs)" and a: "a \<in> set xs" and b: "b \<in> set xs" and lt: "f a < f b"
  shows "\<exists>i j. i < j \<and> j < length xs \<and> xs ! i = a \<and> xs ! j = b"
proof -
  from a obtain i where i: "i < length xs" "xs ! i = a" by (auto simp: in_set_conv_nth)
  from b obtain j where j: "j < length xs" "xs ! j = b" by (auto simp: in_set_conv_nth)
  have "i < j"
  proof (rule ccontr)
    assume "\<not> i < j"
    then have "j \<le> i" by simp
    moreover have "i < length (map f xs)" using i by simp
    ultimately have "map f xs ! j \<le> map f xs ! i"
      using s sorted_iff_nth_mono [of "map f xs"] by blast
    with i j have "f b \<le> f a" by simp
    with lt show False by simp
  qed
  with i j show ?thesis by blast
qed

lemma insort_key_map_commute:
  "insort_key f (g x) (map g xs) = map g (insort_key (\<lambda>y. f (g y)) x xs)"
  by (induction xs) auto

lemma sort_key_map_commute:
  "sort_key f (map g xs) = map g (sort_key (\<lambda>y. f (g y)) xs)"
  by (induction xs) (auto simp: insort_key_map_commute)

lemma sortOrdersByQuantity_ignores_priority:
  "sortOrdersByQuantity (map (\<lambda>order. order\<lparr>priority := p order\<rparr>) orders) =
     map (\<lambda>order. order\<lparr>priority := p order\<rparr>) (sortOrdersByQuantity orders)"
  by (simp add: sortOrdersByQuantity_def sort_key_map_commute)

text \<open>
  C7 as stated fails: the shared clock is a Date, and a Date has a limited range. With
  an ageing step of 2000000000 min/kg, the order of 50 kg is sequenced first and is
  placed from 06:00 on; when the order of 200 kg is placed next, with Anna again, the
  end computed for it lies beyond the last valid Date. Its assignment then ends at an
  Invalid Date, and no assignment ends strictly before one that ends at an Invalid
  Date: a comparison with an Invalid Date is false.
\<close>

theorem larger_order_ends_at_invalid_date:
  "sortOrdersByQuantity [order_aged_large, order_aged_small] =
     [order_aged_small, order_aged_large] \<and>
   0 < timePerKg step_ageing \<and> 0 < totalQuantity order_aged_small \<and>
   0 < totalQuantity order_aged_large \<and>
   schedulePreparationRooms [step_ageing] 0
       (sortOrdersByQuantity [order_aged_small]) [worker_anna] =
     Inr \<lparr>pass_tasks = [task_ageing_o5], pass_issues = [], currentTime = 6000000021600000\<rparr> \<and>
   jsTimes (timePerKg step_ageing) (totalQuantity order_aged_large) = 400000000000 \<and>
   newDate (jsPlus 6000000021600000 (jsTimes 400000000000 60000)) = None \<and>
   schedulePreparationRooms [step_ageing] 0
       (sortOrdersByQuantity [order_aged_large, order_aged_small]) [worker_anna] =
     Inl (InvalidDate
            \<lparr>pass_tasks = [task_ageing_o5], pass_issues = [], currentTime = 6000000021600000\<rparr>
            ''o6'' ''os9'' 400000000000 [''e1''])"
  by (simp add: prep_run_aged_orders prep_run_aged_small_order)
     (simp add: scenario_defs number_defs sortOrdersByQuantity_def)

text \<open>
  C7, amended. The engine sequences the orders by ascending \<^verbatim>\<open>totalQuantity\<close>, whatever
  their priority (rewriting the priorities does not change the sequence). Consequently,
  when the forward pass constructs only valid Dates, every preparation assignment of an
  order of smaller quantity starts and ends strictly before every preparation
  assignment of an order of larger quantity on the shared clock, and has ended when
  the latter starts. Order ids are distinct and the step times and quantities are
  positive.
\<close>

theorem smaller_order_prepared_first:
  assumes run: "schedulePreparationRooms procSteps now (sortOrdersByQuantity orders) pool = Inr st"
    and d: "distinct (map order_id orders)"
    and pos: "\<forall>step \<in> set procSteps. 0 < timePerKg step"
    and q: "\<forall>order \<in> set orders. 0 < totalQuantity order"
    and a: "a \<in> set orders" and b: "b \<in> set orders"
    and lt: "totalQuantity a < totalQuantity b"
    and t1: "t1 \<in> set (pass_tasks st)" and t2: "t2 \<in> set (pass_tasks st)"
    and o1: "orderId t1 = order_id a" and o2: "orderId t2 = order_id b"
  shows "sorted (map totalQuantity (sortOrdersByQuantity orders)) \<and>
         mset (sortOrdersByQuantity orders) = mset orders \<and>
         sortOrdersByQuantity (map (\<lambda>order. order\<lparr>priority := p order\<rparr>) orders) =
           map (\<lambda>order. order\<lparr>priority := p order\<rparr>) (sortOrdersByQuantity orders) \<and>
         startTime t1 < startTime t2 \<and> endTime t1 < endTime t2 \<and> endTime t1 \<le> startTime t2"
proof -
  let ?sorted = "sortOrdersByQuantity orders"
  have srt: "sorted (map totalQuantity ?sorted)" by (simp add: sortOrdersByQuantity_def)
  have ms: "mset ?sorted = mset orders" by (simp add: sortOrdersByQuantity_def)
  have "mset (map order_id ?sorted) = mset (map order_id orders)"
    by (simp add: sortOrdersByQuantity_def)
  with d have d': "distinct (map order_id ?sorted)" by (metis mset_eq_imp_distinct_iff)
  have q': "\<forall>order \<in> set ?sorted. 0 < totalQuantity order"
    using q by (simp add: sortOrdersByQuantity_def)
  from run obtain start where start: "newDate (createDateTime now 6 0) = Some start"
    and steps: "runSteps (prepOrder procSteps pool)
                  \<lparr>pass_tasks = [], pass_issues = [], currentTime = start\<rparr> ?sorted = Inr st"
    by (auto simp: schedulePreparationRooms_def split: option.splits)
  from newDate_Some [OF start]
  have v: "validDate (currentTime \<lparr>pass_tasks = [], pass_issues = [], currentTime = start\<rparr>)"
    by auto
  have "forwardOrdered ?sorted st \<and> validDate (currentTime st)"
    by (rule runSteps_prepOrder_forwardOrdered [OF pos _ v d' q' steps]) simp
  then have inv: "forwardOrdered ?sorted st" ..
  have "a \<in> set ?sorted" "b \<in> set ?sorted" using a b by (simp_all add: sortOrdersByQuantity_def)
  with srt lt obtain i j where ij: "i < j" "j < length ?sorted" "?sorted ! i = a" "?sorted ! j = b"
    using sorted_position [of totalQuantity ?sorted a b] by blast
  with inv t1 t2 o1 o2 have e: "endTime t1 \<le> startTime t2"
    unfolding forwardOrdered_def by blast
  from inv t1 t2 have "startTime t1 < endTime t1" "startTime t2 < endTime t2"
    unfolding forwardOrdered_def by blast+
  with e srt ms show ?thesis by (simp add: sortOrdersByQuantity_ignores_priority)
qed

theorem smaller_order_prepared_first_witness:
  "startTime task_cutting_o1 < startTime task_cutting_o2 \<and>
   endTime task_cutting_o1 < endTime task_cutting_o2 \<and>
   endTime task_cutting_o1 \<le> startTime task_cutting_o2 \<and>
   totalQuantity order_small < totalQuantity order_large \<and>
   priority order_small = ''low'' \<and> priority order_large = ''high''"
proof -
  let ?orders = "[order_large, order_small]"
  let ?steps = "[step_cutting, step_filling]"
  let ?st = "\<lparr>pass_tasks = [task_cutting_o1, task_cutting_o2], pass_issues = [],
              currentTime = 36600000\<rparr>"
  have d: "distinct (map order_id ?orders)" by (simp add: order_small_def order_large_def)
  have pos: "\<forall>step \<in> set ?steps. 0 < timePerKg step"
    by (simp add: step_cutting_def step_filling_def)
  have q: "\<forall>order \<in> set ?orders. 0 < totalQuantity order"
    by (simp add: order_small_def order_large_def)
  have a: "order_small \<in> set ?orders" and b: "order_large \<in> set ?orders" by simp_all
  have lt: "totalQuantity order_small < totalQuantity order_large"
    by (simp add: order_small_def order_large_def)
  have t1: "task_cutting_o1 \<in> set (pass_tasks ?st)"
    and t2: "task_cutting_o2 \<in> set (pass_tasks ?st)"
    by simp_all
  have o1: "orderId task_cutting_o1 = order_id order_small"
    and o2: "orderId task_cutting_o2 = order_id order_large"
    by (simp_all add: task_cutting_o1_def task_cutting_o2_def order_small_def order_large_def)
  from smaller_order_prepared_first [OF prep_run_two_orders d pos q a b lt t1 t2 o1 o2] lt
  show ?thesis by (simp add: order_small_def order_large_def)
qed

subsection \<open>The anchor of the backward pass\<close>

lemma assignEmployees_nonempty:
  assumes "1 \<le> requiredEmployees step" and "\<not> int (length suitable) < requiredEmployees step"
  shows "assignEmployees order orderStep step suitable s e d \<noteq> []"
proof -
  from assms have "suitable \<noteq> []" by auto
  moreover from assms have "nat (requiredEmployees step) \<noteq> 0" by simp
  ultimately show ?thesis by (simp add: assignEmployees_def)
qed

lemma assignEmployees_endTime:
  "t \<in> set (assignEmployees order orderStep step suitable s e d) \<Longrightarrow> endTime t = e"
  by (auto simp: assignEmployees_def)

lemma fillStep_anchoredAt:
  assumes run: "fillStep procSteps pool prep order st orderStep = Inr st'"
    and valid: "validDate (currentTime st)"
    and inv: "anchoredAt T st"
    and steps: "\<forall>step \<in> set procSteps. 0 \<le> timePerKg step \<and> 1 \<le> requiredEmployees step"
    and q: "0 \<le> totalQuantity order"
  shows "anchoredAt T st'"
  using run valid
proof (cases rule: fillStep_cases)
  case skip
  with inv show ?thesis by (simp add: anchoredAt_def)
next
  case (place step)
  from place(1) have "step \<in> set procSteps" by (auto simp: find_Some_iff)
  with steps q have d: "0 \<le> timePerKg step * totalQuantity order"
    and r: "1 \<le> requiredEmployees step" by simp_all
  let ?suit = "findSuitableEmployees step (currentTime st') pool (pass_tasks st @ prep)"
  let ?new = "assignEmployees order orderStep step ?suit (currentTime st') (currentTime st)
                (timePerKg step * totalQuantity order)"
  from place(2) r have ne: "?new \<noteq> []" by (rule assignEmployees_nonempty [rotated])
  have ends: "\<forall>t \<in> set ?new. endTime t = currentTime st"
    by (auto dest: assignEmployees_endTime)
  from ne ends have hd_new: "endTime (hd ?new) = currentTime st" by simp
  have "endTime (hd (pass_tasks st @ ?new)) = T"
  proof (cases "pass_tasks st = []")
    case True
    with inv hd_new show ?thesis by (simp add: anchoredAt_def)
  next
    case False
    with inv show ?thesis by (simp add: anchoredAt_def)
  qed
  moreover from inv d place(3) have "currentTime st' \<le> T" by (simp add: anchoredAt_def)
  moreover from inv ends have "\<forall>t \<in> set (pass_tasks st @ ?new). endTime t \<le> T"
    by (auto simp: anchoredAt_def)
  ultimately show ?thesis using ne place(5) by (simp add: anchoredAt_def)
qed

lemma scheduleFillingRoom_anchoredAt:
  assumes steps: "\<forall>step \<in> set procSteps. 0 \<le> timePerKg step \<and> 1 \<le> requiredEmployees step"
    and q: "\<forall>order \<in> set orders. 0 \<le> totalQuantity order"
    and run: "scheduleFillingRoom procSteps now orders pool prep = Inr st"
  shows "anchoredAt (createDateTime now 17 0) st"
proof -
  let ?T = "createDateTime now 17 0"
  let ?P = "\<lambda>s. anchoredAt ?T s \<and> validDate (currentTime s)"
  from run obtain finish where finish: "newDate ?T = Some finish"
    and loop: "runSteps (fillOrder procSteps pool prep)
                 \<lparr>pass_tasks = [], pass_issues = [], currentTime = finish\<rparr> (rev orders) = Inr st"
    by (auto simp: scheduleFillingRoom_def split: option.splits)
  from newDate_Some [OF finish] have f: "finish = ?T" and v: "validDate finish" by auto
  from loop have "?P st"
  proof (rule runSteps_invariant [where P = ?P])
    show "?P \<lparr>pass_tasks = [], pass_issues = [], currentTime = finish\<rparr>"
      using f v by (simp add: anchoredAt_def)
  next
    fix s :: passState and order s'
    assume "order \<in> set (rev orders)"
    with q have q1: "0 \<le> totalQuantity order" by simp
    assume inv: "?P s" and "fillOrder procSteps pool prep s order = Inr s'"
    then have "runSteps (fillStep procSteps pool prep order) s
                 (rev (getFillingStepsForOrder order)) = Inr s'"
      by (simp add: fillOrder_def)
    then show "?P s'"
    proof (rule runSteps_invariant [where P = ?P])
      show "?P s" by (rule inv)
    next
      fix u :: passState and orderStep u'
      assume u: "?P u" and step: "fillStep procSteps pool prep order u orderStep = Inr u'"
      from u have a: "anchoredAt ?T u" and vu: "validDate (currentTime u)" by simp_all
      have "anchoredAt ?T u'" by (rule fillStep_anchoredAt [OF step vu a steps q1])
      moreover have "validDate (currentTime u')" by (rule fillStep_validDate [OF step vu])
      ultimately show "?P u'" by simp
    qed
  qed
  then show ?thesis ..
qed

text \<open>
  With non-negative step times and quantities and a headcount of at least one, a
  backward pass that stays within the range of a Date and places a task has its first
  task, and the latest end over all its tasks, at 17:00 of the day of \<open>now\<close>.
\<close>

lemma latest_filling_end_is_anchor:
  assumes steps: "\<forall>step \<in> set procSteps. 0 \<le> timePerKg step \<and> 1 \<le> requiredEmployees step"
    and q: "\<forall>order \<in> set orders. 0 \<le> totalQuantity order"
    and run: "scheduleFillingRoom procSteps now orders pool prep = Inr st"
    and placed: "pass_tasks st \<noteq> []"
  shows "endTime (hd (pass_tasks st)) = createDateTime now 17 0 \<and>
         Max (endTime ` set (pass_tasks st)) = createDateTime now 17 0"
proof -
  let ?ts = "pass_tasks st"
  let ?T = "createDateTime now 17 0"
  from scheduleFillingRoom_anchoredAt [OF steps q run] placed
  have h: "endTime (hd ?ts) = ?T" and le: "\<forall>t \<in> set ?ts. endTime t \<le> ?T"
    by (simp_all add: anchoredAt_def)
  from placed have "hd ?ts \<in> set ?ts" by simp
  with h have mem: "?T \<in> endTime ` set ?ts" by force
  have fin: "finite (endTime ` set ?ts)" by simp
  from le have ub: "\<And>y. y \<in> endTime ` set ?ts \<Longrightarrow> y \<le> ?T" by auto
  from fin ub mem have "Max (endTime ` set ?ts) = ?T" by (rule Max_eqI)
  with h show ?thesis by simp
qed

text \<open>
  C5 fails on the code. The backward clock starts at 17:00 of the day on which the run
  executes (\<^verbatim>\<open>new Date()\<close>), not of the target date. A run for day 1 executed on day 0
  places the filling tasks of the two orders so that the latest ends at 17:00 of day 0
  (61200000 ms), a day before 17:00 of the target date (147600000 ms).
\<close>

theorem filling_anchor_ignores_target_date:
  "generateOptimalSchedule (storage_day [order_large, order_small]) 0 86400000 =
     Inr \<lparr>tasks = [task_cutting_o1, task_cutting_o2, task_filling_o2, task_filling_o1],
          feasible = False, issues = [ExceedsMaxHours ''Anna'' (25 / 3) 8],
          recommendations = [HighUtilization (Num 100)]\<rparr> \<and>
   scheduleFillingRoom [step_cutting, step_filling] 0
     (sortOrdersByQuantity [order_large, order_small]) [worker_anna]
     [task_cutting_o1, task_cutting_o2] =
     Inr \<lparr>pass_tasks = [task_filling_o2, task_filling_o1], pass_issues = [],
          currentTime = 46200000\<rparr> \<and>
   Max (endTime ` set [task_filling_o2, task_filling_o1]) = 61200000 \<and>
   createDateTime 0 17 0 = 61200000 \<and>
   createDateTime 86400000 17 0 = 147600000"
  by (simp add: run_two_orders fill_run_two_orders)
     (simp add: task_filling_o1_def task_filling_o2_def createDateTime_def)

section \<open>Dependency checker: properties\<close>

text \<open>
  C8. The dependency checker reports "unmet" exactly when the step is a filling step
  (its production area id contains \<^verbatim>\<open>filling\<close>) and the forward pass has produced no
  preparation-area assignment (area id containing \<^verbatim>\<open>prep\<close>) for the same order id. Any
  preparation assignment of the order is enough, whichever step it belongs to, and a
  step that is not a filling step is always "met".
\<close>

theorem checkDependencies_unmet_iff:
  "\<not> met (checkDependencies oid step existingTasks) \<longleftrightarrow>
     (areaIncludes (ps_productionAreaId step) ''filling'' \<and>
      \<not> (\<exists>task \<in> set existingTasks.
            orderId task = oid \<and> strIncludes (productionAreaId task) ''prep''))"
  by (auto simp: checkDependencies_def Let_def filter_empty_conv)

theorem checkDependencies_unmet_iff_witness:
  "met (checkDependencies ''o3'' step_filling [task_cutting_o3]) \<and>
   \<not> met (checkDependencies ''o1'' step_filling [task_cutting_o3]) \<and>
   met (checkDependencies ''o1'' step_cutting []) \<and>
   areaIncludes (ps_productionAreaId step_filling) ''filling''"
  using checkDependencies_unmet_iff [of "''o3''" step_filling "[task_cutting_o3]"]
        checkDependencies_unmet_iff [of "''o1''" step_filling "[task_cutting_o3]"]
        checkDependencies_unmet_iff [of "''o1''" step_cutting "[]"]
  by (simp add: task_cutting_o3_def step_filling_def step_cutting_def areaIncludes_def)

end
